theory Spec2Isabelle
  imports Main "HOL-Library.Finite_Map" "HOL-Library.Word"
begin

section \<open>The collection server of defector (cmd/server/server.go)\<close>

text \<open>
  The server hands out pages to browse to workers and collects their captures. Its state
  is the three package variables \<^verbatim>\<open>work\<close>, \<^verbatim>\<open>workers\<close> and \<^verbatim>\<open>done\<close>, all accessed under
  one mutex, and the output files below \<^verbatim>\<open>*datadir\<close>. Every call of \<^verbatim>\<open>Work\<close> holds the
  mutex from its first to its last statement, so calls are modelled as atomic transitions
  of one state.
\<close>

subsection \<open>Strings and the Go library functions the server calls\<close>

type_synonym byte = "8 word"

text \<open>\<^verbatim>\<open>strings.HasPrefix(s, prefix)\<close>:
  \<^verbatim>\<open>len(s) >= len(prefix) && s[0:len(prefix)] == prefix\<close>.\<close>

definition HasPrefix :: "string \<Rightarrow> string \<Rightarrow> bool" where
  "HasPrefix s pre = (length pre \<le> length s \<and> take (length pre) s = pre)"

text \<open>\<^verbatim>\<open>strings.Join(elems, "/")\<close>.\<close>

fun join_slash :: "string list \<Rightarrow> string" where
  "join_slash [] = []"
| "join_slash [e] = e"
| "join_slash (e # es) = e @ ''/'' @ join_slash es"

text \<open>
  \<^verbatim>\<open>path.Clean\<close> of the Go standard library, transcribed from its loop. The library reads
  the path at index \<^verbatim>\<open>r\<close> and writes a buffer \<^verbatim>\<open>out\<close> of length \<^verbatim>\<open>out.w\<close>; \<^verbatim>\<open>dotdot\<close> is the
  index in the buffer where backtracking over \<^verbatim>\<open>..\<close> must stop. Here the unread part of
  the path is the list argument and the buffer is the list of bytes written so far.

  Backtracking over one element: \<^verbatim>\<open>out.w--; for out.w > dotdot && out.index(out.w) != '/' { out.w-- }\<close>.
  The argument \<open>w\<close> is the value of \<^verbatim>\<open>out.w\<close> after the first decrement.
\<close>

fun backtrack_w :: "string \<Rightarrow> nat \<Rightarrow> nat \<Rightarrow> nat" where
  "backtrack_w out dotdot 0 = 0"
| "backtrack_w out dotdot (Suc w) =
     (if dotdot < Suc w \<and> out ! (Suc w) \<noteq> CHR ''/'' then backtrack_w out dotdot w else Suc w)"

definition backtrack :: "string \<Rightarrow> nat \<Rightarrow> string" where
  "backtrack out dotdot = take (backtrack_w out dotdot (length out - 1)) out"

function clean_loop :: "bool \<Rightarrow> string \<Rightarrow> string \<Rightarrow> nat \<Rightarrow> string" where
  "clean_loop rooted [] out dotdot = out"
| "clean_loop rooted (c # cs) out dotdot =
     (if c = CHR ''/'' then clean_loop rooted cs out dotdot
      else if c = CHR ''.'' \<and> (cs = [] \<or> hd cs = CHR ''/'') then clean_loop rooted cs out dotdot
      else if c = CHR ''.'' \<and> hd cs = CHR ''.'' \<and> (tl cs = [] \<or> hd (tl cs) = CHR ''/'') then
        (if dotdot < length out then clean_loop rooted (tl cs) (backtrack out dotdot) dotdot
         else if \<not> rooted then
           (let out' = (if 0 < length out then out @ ''/'' else out) @ ''..''
            in clean_loop rooted (tl cs) out' (length out'))
         else clean_loop rooted (tl cs) out dotdot)
      else
        (let out' = (if rooted \<and> length out \<noteq> 1 \<or> \<not> rooted \<and> length out \<noteq> 0
                     then out @ ''/'' else out)
         in clean_loop rooted (dropWhile (\<lambda>x. x \<noteq> CHR ''/'') (c # cs))
              (out' @ takeWhile (\<lambda>x. x \<noteq> CHR ''/'') (c # cs)) dotdot))"
  by pat_completeness auto
termination
proof (relation "measure (\<lambda>(rooted, p, out, dotdot). length p)")
  show "wf (measure (\<lambda>(rooted, p, out, dotdot). length p))" by simp
next
  fix rooted :: bool and c :: char and cs out :: string and dotdot :: nat and out' :: string
  assume "c \<noteq> CHR ''/''"
  have "length (dropWhile (\<lambda>x. x \<noteq> CHR ''/'') cs) \<le> length cs"
    by (rule length_dropWhile_le)
  then show "((rooted, dropWhile (\<lambda>x. x \<noteq> CHR ''/'') (c # cs),
                out' @ takeWhile (\<lambda>x. x \<noteq> CHR ''/'') (c # cs), dotdot),
               (rooted, c # cs, out, dotdot)) \<in> measure (\<lambda>(rooted, p, out, dotdot). length p)"
    using \<open>c \<noteq> CHR ''/''\<close> by simp
qed (auto simp: less_Suc_eq_le)

definition path_Clean :: "string \<Rightarrow> string" where
  "path_Clean p =
     (if p = [] then ''.''
      else let rooted = (hd p = CHR ''/'');
               out = (if rooted then clean_loop True (tl p) ''/'' 1
                      else clean_loop False p [] 0)
           in if out = [] then ''.'' else out)"

text \<open>\<^verbatim>\<open>path.Join\<close>: the elements from the first non-empty one on, joined by slashes and
  cleaned; the empty string if all are empty.\<close>

fun path_Join :: "string list \<Rightarrow> string" where
  "path_Join [] = []"
| "path_Join (e # es) = (if e \<noteq> [] then path_Clean (join_slash (e # es)) else path_Join es)"

text \<open>\<^verbatim>\<open>strconv.Itoa\<close>: the decimal digits, with a minus sign for a negative number.\<close>

definition digit_char :: "nat \<Rightarrow> char" where
  "digit_char d = ''0123456789'' ! d"

fun nat_digits :: "nat \<Rightarrow> string" where
  "nat_digits n = (if n < 10 then [digit_char n] else nat_digits (n div 10) @ [digit_char (n mod 10)])"

declare nat_digits.simps [simp del]

definition Itoa :: "int \<Rightarrow> string" where
  "Itoa i = (if i < 0 then CHR ''-'' # nat_digits (nat (- i)) else nat_digits (nat i))"

subsection \<open>Retry target: toggling the www. prefix\<close>

text \<open>Lines 174-179 of \<^verbatim>\<open>Work\<close>:
  \<^verbatim>\<open>if strings.HasPrefix(url, "www.") { url = url[4:] } else { url = "www." + url }\<close>.\<close>

definition toggle_www :: "string \<Rightarrow> string" where
  "toggle_www url = (if HasPrefix url ''www.'' then drop 4 url else ''www.'' @ url)"

subsection \<open>Data\<close>

text \<open>\<^verbatim>\<open>type item struct { ID string; URL string }\<close>\<close>

record item =
  item_ID :: string
  item_URL :: string

text \<open>The protocol messages of collect.pb.go. \<^verbatim>\<open>Req.Browse\<close> is a pointer and is \<^verbatim>\<open>nil\<close>
  when the field is absent from the request on the wire.\<close>

record Browse =
  ID :: string
  URL :: string
  Timeout :: int
  Data :: "byte list"
  AllTraffic :: bool

record Req =
  WorkerID :: string
  Browse :: "Browse option"

text \<open>The command-line flags. Go's \<^verbatim>\<open>int\<close> is modelled by \<^typ>\<open>int\<close>: the counters below
  move by one per call, so the 64-bit range is out of reach.\<close>

record config =
  timeout :: int
  samples :: int
  datadir :: string
  scheme :: string
  alltraffic :: bool
  minDataLen :: int
  outputSuffix :: string

text \<open>The package variables \<^verbatim>\<open>work\<close>, \<^verbatim>\<open>workers\<close> and \<^verbatim>\<open>done\<close> (here \<open>done_count\<close>), and the
  files on disk, a finite map from path to content.\<close>

record state =
  work :: "(string, item) fmap"
  workers :: "(string, string) fmap"
  done_count :: int
  files :: "(string, byte list) fmap"

datatype error = IOError

text \<open>What a call of \<^verbatim>\<open>Work\<close> does for its caller: it returns a message, returns an error,
  or panics on a nil pointer.\<close>

datatype outcome = Reply Browse | Failure error | Panic

subsection \<open>The result store\<close>

text \<open>\<^verbatim>\<open>path.Join(*datadir, path.Clean(id)+*outputSuffix)\<close>\<close>

definition outputFileName :: "config \<Rightarrow> string \<Rightarrow> string" where
  "outputFileName cfg uid = path_Join [datadir cfg, path_Clean uid @ outputSuffix cfg]"

text \<open>
  \<^verbatim>\<open>ioutil.WriteFile\<close> either writes the whole content and returns no error, or fails. What
  the environment does is an argument of the model: on failure the file is untouched
  (it could not be opened) or is left with some partial content.
\<close>

datatype write_outcome = WriteOk | WriteErr "byte list option"

definition WriteFile ::
  "write_outcome \<Rightarrow> (string, byte list) fmap \<Rightarrow> string \<Rightarrow> byte list
    \<Rightarrow> (string, byte list) fmap \<times> error option" where
  "WriteFile io fs name d =
     (case io of
        WriteOk \<Rightarrow> (fmupd name d fs, None)
      | WriteErr None \<Rightarrow> (fs, Some IOError)
      | WriteErr (Some partial) \<Rightarrow> (fmupd name partial fs, Some IOError))"

definition store :: "config \<Rightarrow> write_outcome \<Rightarrow> Browse \<Rightarrow> state \<Rightarrow> state \<times> error option" where
  "store cfg io b st =
     (if 0 < length (Data b) then
        (case WriteFile io (files st) (outputFileName cfg (ID b)) (Data b) of
           (fs, Some e) \<Rightarrow> (st\<lparr>files := fs\<rparr>, Some e)
         | (fs, None) \<Rightarrow> (st\<lparr>files := fs, done_count := done_count st + 1\<rparr>, None))
      else (st\<lparr>done_count := done_count st + 1\<rparr>, None))"

subsection \<open>The handler Work\<close>

text \<open>Lines 150-156: keep tabs on the workers.\<close>

definition register_worker :: "string \<Rightarrow> state \<Rightarrow> state" where
  "register_worker w st =
     (if fmlookup (workers st) w = None then st\<lparr>workers := fmupd w w (workers st)\<rparr> else st)"

text \<open>Lines 158-187: completed work? The error is the one \<^verbatim>\<open>store\<close> returned, on which
  \<^verbatim>\<open>Work\<close> returns at once.\<close>

definition intake :: "config \<Rightarrow> write_outcome \<Rightarrow> Browse \<Rightarrow> state \<Rightarrow> state \<times> error option" where
  "intake cfg io b st =
     (if ID b \<noteq> [] then
        (if minDataLen cfg \<le> int (length (Data b)) then
           (case store cfg io b st of
              (st', Some e) \<Rightarrow> (st', Some e)
            | (st', None) \<Rightarrow>
                (if fmlookup (work st') (ID b) \<noteq> None
                 then (st'\<lparr>work := fmdrop (ID b) (work st')\<rparr>, None)
                 else (st', None)))
         else
           (st\<lparr>work := fmupd (ID b) \<lparr>item_ID = ID b, item_URL = toggle_www (URL b)\<rparr> (work st)\<rparr>,
            None))
      else (st, None))"

text \<open>
  Lines 189-204: find work. \<^verbatim>\<open>for id, item := range work\<close> yields an entry of the map that
  the Go runtime chooses, the body returns in its first iteration, and the deferred
  \<^verbatim>\<open>delete(work, id)\<close> runs before the call returns. The model is the set of all results
  the runtime's choice allows.
\<close>

definition no_work :: "config \<Rightarrow> Browse" where
  "no_work cfg = \<lparr>ID = [], URL = [], Timeout = timeout cfg, Data = [], AllTraffic = False\<rparr>"

definition hand_out :: "config \<Rightarrow> state \<Rightarrow> string \<times> item \<Rightarrow> state \<times> outcome" where
  "hand_out cfg st = (\<lambda>(uid, it).
     (st\<lparr>work := fmdrop uid (work st)\<rparr>,
      Reply \<lparr>ID = item_ID it, URL = item_URL it, Timeout = timeout cfg, Data = [],
             AllTraffic = alltraffic cfg\<rparr>))"

definition find_work :: "config \<Rightarrow> state \<Rightarrow> (state \<times> outcome) set" where
  "find_work cfg st =
     (if work st = fmempty then {(st, Reply (no_work cfg))}
      else hand_out cfg st ` fset (fset_of_fmap (work st)))"

text \<open>The whole handler. \<^verbatim>\<open>in.Browse.ID\<close> dereferences the pointer \<^verbatim>\<open>in.Browse\<close>.\<close>

definition Work :: "config \<Rightarrow> write_outcome \<Rightarrow> state \<Rightarrow> Req \<Rightarrow> (state \<times> outcome) set" where
  "Work cfg io st req =
     (let st0 = register_worker (WorkerID req) st in
      case Browse req of
        None \<Rightarrow> {(st0, Panic)}
      | Some b \<Rightarrow>
          (case intake cfg io b st0 of
             (st1, Some e) \<Rightarrow> {(st1, Failure e)}
           | (st1, None) \<Rightarrow> find_work cfg st1))"

subsection \<open>Start-up: creating the work (main, lines 76-103)\<close>

text \<open>
  The fields of \<^verbatim>\<open>url.URL\<close> that the targets of a page table reach (the others are the user
  information, the query and the fragment). The functions \<^verbatim>\<open>url.Parse\<close> and
  \<^verbatim>\<open>(*URL).String\<close> of the Go library are arguments of the model, so what is proved of
  the start-up holds for whatever the library computes; \<open>None\<close> is a parse error.
\<close>

record URL =
  Scheme :: string
  Opaque :: string
  Host :: string
  Path :: string

record net_url =
  url_Parse :: "string \<Rightarrow> URL option"
  url_String :: "URL \<Rightarrow> string"

text \<open>How start-up ends when it does not reach the server loop: \<^verbatim>\<open>log.Fatalf\<close> on a page
  that does not parse, or a runtime panic on a row without a second column.\<close>

datatype fatal = ParseFailed | IndexOutOfRange | NilDereference

text \<open>Lines 76-81: validate the pages as URLs.\<close>

fun validate_pages :: "net_url \<Rightarrow> string list list \<Rightarrow> fatal option" where
  "validate_pages lib [] = None"
| "validate_pages lib (row # rows) =
     (if length row < 2 then Some IndexOutOfRange
      else case url_Parse lib (row ! 1) of
             None \<Rightarrow> Some ParseFailed
           | Some page \<Rightarrow> validate_pages lib rows)"

text \<open>
  The answer of \<^verbatim>\<open>os.Stat\<close> for a path: the path is there, it is reported missing (the
  error that \<^verbatim>\<open>os.IsNotExist\<close> recognises), or the call fails in another way (a component
  of the path is a regular file, a name is too long, a directory may not be searched).
  What the operating system answers is an argument of the model.
\<close>

datatype stat_result = StatOk | StatNotExist | StatOther

text \<open>\<^verbatim>\<open>os.Stat\<close> on a disk where it fails for a missing path only.\<close>

definition disk_Stat :: "(string, byte list) fmap \<Rightarrow> string \<Rightarrow> stat_result" where
  "disk_Stat fs name = (if fmlookup fs name = None then StatNotExist else StatOk)"

text \<open>Lines 88-101, the body of the inner loop for sample \<open>s\<close> and one row. The error of
  the second \<^verbatim>\<open>url.Parse\<close> is dropped by the source, whose \<^verbatim>\<open>page.Scheme\<close> then
  dereferences a nil pointer. The unit is created when \<^verbatim>\<open>os.IsNotExist(err)\<close> holds of the
  error of \<^verbatim>\<open>os.Stat\<close>; in every other case, also when \<^verbatim>\<open>os.Stat\<close> fails otherwise, the
  source counts the unit as done.\<close>

definition work_id :: "string list \<Rightarrow> int \<Rightarrow> string" where
  "work_id row s = row ! 0 @ ''-'' @ Itoa s"

definition create_item ::
  "net_url \<Rightarrow> config \<Rightarrow> (string \<Rightarrow> stat_result) \<Rightarrow> int \<Rightarrow> string list \<Rightarrow> state \<Rightarrow> fatal + state" where
  "create_item lib cfg stat s row st =
     (if length row < 2 then Inl IndexOutOfRange
      else case url_Parse lib (row ! 1) of
        None \<Rightarrow> Inl NilDereference
      | Some page0 \<Rightarrow>
          (let page = (if Scheme page0 = [] then page0\<lparr>Scheme := scheme cfg\<rparr> else page0);
               uid = work_id row s
           in if stat (outputFileName cfg uid) = StatNotExist
              then Inr (st\<lparr>work := fmupd uid \<lparr>item_ID = uid, item_URL = url_String lib page\<rparr> (work st)\<rparr>)
              else Inr (st\<lparr>done_count := done_count st + 1\<rparr>)))"

text \<open>\<^verbatim>\<open>for i := 0; i < len(pages); i++\<close>\<close>

fun pages_loop ::
  "net_url \<Rightarrow> config \<Rightarrow> (string \<Rightarrow> stat_result) \<Rightarrow> int \<Rightarrow> string list list \<Rightarrow> state
    \<Rightarrow> fatal + state" where
  "pages_loop lib cfg stat s [] st = Inr st"
| "pages_loop lib cfg stat s (row # rows) st =
     (case create_item lib cfg stat s row st of
        Inl e \<Rightarrow> Inl e
      | Inr st' \<Rightarrow> pages_loop lib cfg stat s rows st')"

text \<open>\<^verbatim>\<open>for s := 0; s < *samples; s++\<close>, entered at \<open>s\<close>.\<close>

function samples_loop ::
  "net_url \<Rightarrow> config \<Rightarrow> (string \<Rightarrow> stat_result) \<Rightarrow> string list list \<Rightarrow> int \<Rightarrow> state
    \<Rightarrow> fatal + state" where
  "samples_loop lib cfg stat pages s st =
     (if s < samples cfg then
        (case pages_loop lib cfg stat s pages st of
           Inl e \<Rightarrow> Inl e
         | Inr st' \<Rightarrow> samples_loop lib cfg stat pages (s + 1) st')
      else Inr st)"
  by pat_completeness auto
termination
  by (relation "measure (\<lambda>(lib, cfg, stat, pages, s, st). nat (samples cfg - s))") auto

declare samples_loop.simps [simp del]

text \<open>Start-up from the rows of the page table, the answers of \<^verbatim>\<open>os.Stat\<close> and the files
  on disk: both maps empty, \<^verbatim>\<open>done\<close> zero, then the two loops.\<close>

definition main_load ::
  "net_url \<Rightarrow> config \<Rightarrow> (string \<Rightarrow> stat_result) \<Rightarrow> (string, byte list) fmap \<Rightarrow> string list list
    \<Rightarrow> fatal + state" where
  "main_load lib cfg stat fs pages =
     (case validate_pages lib pages of
        Some e \<Rightarrow> Inl e
      | None \<Rightarrow>
          samples_loop lib cfg stat pages 0
            \<lparr>work = fmempty, workers = fmempty, done_count = 0, files = fs\<rparr>)"

text \<open>Line 123 of the progress function: \<^verbatim>\<open>total := len(pages) * *samples\<close>.\<close>

definition total :: "config \<Rightarrow> string list list \<Rightarrow> int" where
  "total cfg pages = int (length pages) * samples cfg"

text \<open>The flags as \<^verbatim>\<open>flag.Int\<close>, \<^verbatim>\<open>flag.String\<close> and \<^verbatim>\<open>flag.Bool\<close> default them (lines 40-46).\<close>

definition default_flags :: config where
  "default_flags =
     \<lparr>timeout = 15, samples = 1, datadir = ''data'', scheme = ''http'', alltraffic = False,
      minDataLen = 25, outputSuffix = ''.pcap''\<rparr>"

subsection \<open>The net/url library on plain targets\<close>

text \<open>
  An instance of the library for the concrete page tables below. It follows
  \<^verbatim>\<open>url.Parse\<close> and \<^verbatim>\<open>(*URL).String\<close> on two shapes of target, where the library neither
  escapes nor rejects a byte: a relative target of letters, digits and \<^verbatim>\<open>-._~/\<close> that does
  not start with a slash (the library makes it the path of the URL), and
  \<^verbatim>\<open>scheme://host/path\<close> with host and path of such bytes. On every other string the
  instance answers \<open>None\<close>, be it a parse error of the library or a target outside the
  two shapes. A URL of these shapes has a path or a host, and then every release of the
  library prints it as \<open>go_String\<close> does.

  \<^verbatim>\<open>getScheme\<close> of net/url: the loop over the bytes of the raw URL, \<open>pre\<close> the bytes before
  index \<^verbatim>\<open>i\<close>; \<open>None\<close> is the error "missing protocol scheme".
\<close>

definition is_letter :: "char \<Rightarrow> bool" where
  "is_letter c = (c \<in> set ''abcdefghijklmnopqrstuvwxyzABCDEFGHIJKLMNOPQRSTUVWXYZ'')"

definition is_digit :: "char \<Rightarrow> bool" where
  "is_digit c = (c \<in> set ''0123456789'')"

fun getScheme_loop :: "string \<Rightarrow> string \<Rightarrow> string \<Rightarrow> (string \<times> string) option" where
  "getScheme_loop raw pre [] = Some ([], raw)"
| "getScheme_loop raw pre (c # cs) =
     (if is_letter c then getScheme_loop raw (pre @ [c]) cs
      else if is_digit c \<or> c = CHR ''+'' \<or> c = CHR ''-'' \<or> c = CHR ''.'' then
        (if pre = [] then Some ([], raw) else getScheme_loop raw (pre @ [c]) cs)
      else if c = CHR '':'' then (if pre = [] then None else Some (pre, cs))
      else Some ([], raw))"

definition getScheme :: "string \<Rightarrow> (string \<times> string) option" where
  "getScheme raw = getScheme_loop raw [] raw"

definition ToLower :: "string \<Rightarrow> string" where
  "ToLower t =
     map (\<lambda>c. case map_of (zip ''ABCDEFGHIJKLMNOPQRSTUVWXYZ'' ''abcdefghijklmnopqrstuvwxyz'') c of
                 Some l \<Rightarrow> l
               | None \<Rightarrow> c) t"

definition plain :: "string \<Rightarrow> bool" where
  "plain t = list_all (\<lambda>c. is_letter c \<or> is_digit c \<or> c \<in> set ''-._~/'') t"

definition go_Parse :: "string \<Rightarrow> URL option" where
  "go_Parse raw =
     (case getScheme raw of
        None \<Rightarrow> None
      | Some (sch, rest) \<Rightarrow>
          if sch = [] then
            (if rest \<noteq> [] \<and> hd rest \<noteq> CHR ''/'' \<and> plain rest
             then Some \<lparr>Scheme = [], Opaque = [], Host = [], Path = rest\<rparr>
             else None)
          else if HasPrefix rest ''//'' then
            (let authority = takeWhile (\<lambda>c. c \<noteq> CHR ''/'') (drop 2 rest);
                 p = dropWhile (\<lambda>c. c \<noteq> CHR ''/'') (drop 2 rest)
             in if authority \<noteq> [] \<and> plain authority \<and> plain p
                then Some \<lparr>Scheme = ToLower sch, Opaque = [], Host = authority, Path = p\<rparr>
                else None)
          else None)"

definition go_String :: "URL \<Rightarrow> string" where
  "go_String u =
     (let b1 = (if Scheme u \<noteq> [] then Scheme u @ '':'' else [])
      in if Opaque u \<noteq> [] then b1 @ Opaque u
         else
           (let b2 = (if Scheme u \<noteq> [] \<or> Host u \<noteq> []
                      then (if Host u \<noteq> [] \<or> Path u \<noteq> [] then b1 @ ''//'' else b1) @ Host u
                      else b1);
                b3 = (if Path u \<noteq> [] \<and> hd (Path u) \<noteq> CHR ''/'' \<and> Host u \<noteq> []
                      then b2 @ ''/'' else b2);
                b4 = (if b3 = [] \<and> CHR '':'' \<in> set (takeWhile (\<lambda>c. c \<noteq> CHR ''/'') (Path u))
                      then b3 @ ''./'' else b3)
            in b4 @ Path u))"

definition go_url :: net_url where
  "go_url = \<lparr>url_Parse = go_Parse, url_String = go_String\<rparr>"

subsection \<open>Notions the properties are stated with\<close>

text \<open>\<^verbatim>\<open>len(work)\<close>\<close>

definition ledger_size :: "state \<Rightarrow> nat" where
  "ledger_size st = fcard (fmdom (work st))"

text \<open>Every unit of the ledger is stored under its own, non-empty id.\<close>

definition ledger_ok :: "state \<Rightarrow> bool" where
  "ledger_ok st = fmpred (\<lambda>k it. k \<noteq> [] \<and> item_ID it = k) (work st)"

text \<open>The iterations of the two start-up loops, in the order the loops run them.\<close>

definition iterations :: "config \<Rightarrow> string list list \<Rightarrow> (int \<times> string list) list" where
  "iterations cfg pages = List.product (map int [0..<nat (samples cfg)]) pages"

text \<open>
  Well-behaved workers. Beside the state of the server runs the list of the ids handed
  out and not yet reported back. A worker reports either nothing (the empty id) or an
  id of that list; a reply with a non-empty id adds it to the list. When \<^verbatim>\<open>Work\<close> returns
  an error the worker has no reply and still holds the unit it tried to report (the
  client of this repository then sends the same request again).
\<close>

definition reported_ok :: "string list \<Rightarrow> Req \<Rightarrow> bool" where
  "reported_ok held req =
     (case Browse req of None \<Rightarrow> False | Some b \<Rightarrow> ID b = [] \<or> ID b \<in> set held)"

definition track :: "string list \<Rightarrow> Req \<Rightarrow> outcome \<Rightarrow> string list" where
  "track held req res =
     (case res of
        Reply r \<Rightarrow>
          (let held' = (case Browse req of
                          None \<Rightarrow> held
                        | Some b \<Rightarrow> if ID b \<noteq> [] then remove1 (ID b) held else held)
           in if ID r \<noteq> [] then ID r # held' else held')
      | Failure e \<Rightarrow> held
      | Panic \<Rightarrow> held)"

inductive reachable :: "config \<Rightarrow> state \<Rightarrow> state \<times> string list \<Rightarrow> bool"
  for cfg :: config and st0 :: state where
  start: "reachable cfg st0 (st0, [])"
| poll: "reachable cfg st0 (st, held) \<Longrightarrow> reported_ok held req \<Longrightarrow>
         (st', res) \<in> Work cfg io st req \<Longrightarrow> reachable cfg st0 (st', track held req res)"

text \<open>The unit start-up stores for a row and a sample: the row's target with the
  default scheme applied when it has none. A row start-up accepts has a second column
  that parses.\<close>

definition unit_for :: "net_url \<Rightarrow> config \<Rightarrow> int \<Rightarrow> string list \<Rightarrow> item option" where
  "unit_for lib cfg s row =
     map_option
       (\<lambda>page. \<lparr>item_ID = work_id row s,
                 item_URL = url_String lib
                   (if Scheme page = [] then page\<lparr>Scheme := scheme cfg\<rparr> else page)\<rparr>)
       (url_Parse lib (row ! 1))"

definition valid_row :: "net_url \<Rightarrow> string list \<Rightarrow> bool" where
  "valid_row lib row = (2 \<le> length row \<and> url_Parse lib (row ! 1) \<noteq> None)"

section \<open>Properties\<close>

subsection \<open>Strings\<close>

lemma HasPrefix_iff: "HasPrefix s pre \<longleftrightarrow> (\<exists>u. s = pre @ u)"
  unfolding HasPrefix_def
  by (metis append_eq_conv_conj append_take_drop_id length_append le_add1)

lemma HasPrefix_append: "HasPrefix (pre @ u) pre"
  by (simp add: HasPrefix_iff)

subsection \<open>The steps of Work\<close>

lemma register_worker_frame [simp]:
  "work (register_worker w st) = work st"
  "done_count (register_worker w st) = done_count st"
  "files (register_worker w st) = files st"
  by (simp_all add: register_worker_def)

lemma fmap_nonempty_entry: "m \<noteq> fmempty \<Longrightarrow> \<exists>k v. fmlookup m k = Some v"
  by (metis fmap_ext fmempty_lookup not_None_eq)

lemma find_work_cases:
  assumes "(st', res) \<in> find_work cfg st"
  obtains (idle) "work st = fmempty" "st' = st" "res = Reply (no_work cfg)"
  | (unit) k it where "fmlookup (work st) k = Some it"
      "st' = st\<lparr>work := fmdrop k (work st)\<rparr>"
      "res = Reply \<lparr>ID = item_ID it, URL = item_URL it, Timeout = timeout cfg, Data = [],
                     AllTraffic = alltraffic cfg\<rparr>"
  using assms
  by (auto simp: find_work_def hand_out_def fset_of_fmap_iff' split: if_splits)

lemma find_work_unit:
  "fmlookup (work st) k = Some it \<Longrightarrow>
   (st\<lparr>work := fmdrop k (work st)\<rparr>,
    Reply \<lparr>ID = item_ID it, URL = item_URL it, Timeout = timeout cfg, Data = [],
           AllTraffic = alltraffic cfg\<rparr>) \<in> find_work cfg st"
  unfolding find_work_def hand_out_def
  by (auto simp: fset_of_fmap_iff' image_iff intro!: bexI [of _ "(k, it)"])

lemma find_work_units:
  assumes "work st \<noteq> fmempty"
  shows "find_work cfg st =
     {(st\<lparr>work := fmdrop k (work st)\<rparr>,
       Reply \<lparr>ID = item_ID it, URL = item_URL it, Timeout = timeout cfg, Data = [],
              AllTraffic = alltraffic cfg\<rparr>) | k it. fmlookup (work st) k = Some it}"
proof (rule set_eqI)
  fix x :: "state \<times> outcome"
  obtain st' res where x: "x = (st', res)" by (cases x)
  show "x \<in> find_work cfg st \<longleftrightarrow>
     x \<in> {(st\<lparr>work := fmdrop k (work st)\<rparr>,
       Reply \<lparr>ID = item_ID it, URL = item_URL it, Timeout = timeout cfg, Data = [],
              AllTraffic = alltraffic cfg\<rparr>) | k it. fmlookup (work st) k = Some it}"
  proof
    assume "x \<in> find_work cfg st"
    then have "(st', res) \<in> find_work cfg st" by (simp add: x)
    then show "x \<in> {(st\<lparr>work := fmdrop k (work st)\<rparr>,
       Reply \<lparr>ID = item_ID it, URL = item_URL it, Timeout = timeout cfg, Data = [],
              AllTraffic = alltraffic cfg\<rparr>) | k it. fmlookup (work st) k = Some it}"
      using assms x by (cases rule: find_work_cases) blast+
  next
    assume "x \<in> {(st\<lparr>work := fmdrop k (work st)\<rparr>,
       Reply \<lparr>ID = item_ID it, URL = item_URL it, Timeout = timeout cfg, Data = [],
              AllTraffic = alltraffic cfg\<rparr>) | k it. fmlookup (work st) k = Some it}"
    then obtain k it where "fmlookup (work st) k = Some it"
      and "x = (st\<lparr>work := fmdrop k (work st)\<rparr>,
       Reply \<lparr>ID = item_ID it, URL = item_URL it, Timeout = timeout cfg, Data = [],
              AllTraffic = alltraffic cfg\<rparr>)" by blast
    then show "x \<in> find_work cfg st" using find_work_unit [of st k it cfg] by simp
  qed
qed

lemma find_work_nonempty: "find_work cfg st \<noteq> {}"
proof (cases "work st = fmempty")
  case True
  then show ?thesis by (simp add: find_work_def)
next
  case False
  then obtain k it where "fmlookup (work st) k = Some it"
    using fmap_nonempty_entry by blast
  then show ?thesis using find_work_unit by blast
qed


lemma intake_reject:
  assumes "ID b \<noteq> []" "int (length (Data b)) < minDataLen cfg"
  shows "intake cfg io b st =
     (st\<lparr>work := fmupd (ID b) \<lparr>item_ID = ID b, item_URL = toggle_www (URL b)\<rparr> (work st)\<rparr>, None)"
  using assms by (simp add: intake_def)

lemma intake_first_contact: "ID b = [] \<Longrightarrow> intake cfg io b st = (st, None)"
  by (simp add: intake_def)

lemma intake_store_fails:
  assumes "ID b \<noteq> []" "minDataLen cfg \<le> int (length (Data b))" "Data b \<noteq> []"
  shows "intake cfg (WriteErr p) b st =
     (st\<lparr>files := (case p of None \<Rightarrow> files st
                    | Some d \<Rightarrow> fmupd (outputFileName cfg (ID b)) d (files st))\<rparr>, Some IOError)"
  using assms
  by (auto simp: intake_def store_def WriteFile_def split: option.splits)

lemma Work_nonempty: "Work cfg io st req \<noteq> {}"
  by (auto simp: Work_def Let_def find_work_nonempty split: option.splits prod.splits)

lemma ledger_ok_register [simp]: "ledger_ok (register_worker w st) = ledger_ok st"
  by (simp add: ledger_ok_def)

lemma intake_ledger_ok:
  assumes "ledger_ok st" "intake cfg io b st = (st1, e)"
  shows "ledger_ok st1"
  using assms
  by (auto simp: intake_def store_def WriteFile_def ledger_ok_def
      intro!: fmpred_upd fmpred_drop
      split: if_splits option.splits prod.splits write_outcome.splits)

lemma find_work_ledger_ok:
  assumes "ledger_ok st" "(st', res) \<in> find_work cfg st"
  shows "ledger_ok st'"
  using assms(2,1) by (cases rule: find_work_cases) (auto simp: ledger_ok_def intro!: fmpred_drop)

lemma Work_ledger_ok:
  assumes "ledger_ok st" "(st', res) \<in> Work cfg io st req"
  shows "ledger_ok st'"
proof (cases "Browse req")
  case None
  then show ?thesis using assms by (simp add: Work_def)
next
  case (Some b)
  obtain st1 e where i: "intake cfg io b (register_worker (WorkerID req) st) = (st1, e)"
    by (cases "intake cfg io b (register_worker (WorkerID req) st)")
  have ok1: "ledger_ok st1" using intake_ledger_ok [OF _ i] assms(1) by simp
  show ?thesis
  proof (cases e)
    case None
    then have "(st', res) \<in> find_work cfg st1" using assms(2) Some i by (simp add: Work_def)
    then show ?thesis using ok1 find_work_ledger_ok by blast
  next
    case (Some err)
    then show ?thesis using assms(2) \<open>Browse req = Some b\<close> i ok1 by (simp add: Work_def)
  qed
qed

subsection \<open>Work ids\<close>

lemma digit_char_cases:
  assumes "(d::nat) < 10"
  shows "d \<in> {0, 1, 2, 3, 4, 5, 6, 7, 8, 9}"
  using assms by (simp add: numeral_eq_Suc less_Suc_eq)

lemma digit_char_not_minus: "d < 10 \<Longrightarrow> digit_char d \<noteq> CHR ''-''"
  by (drule digit_char_cases) (auto simp: digit_char_def)

lemma digit_char_inj: "d < 10 \<Longrightarrow> e < 10 \<Longrightarrow> digit_char d = digit_char e \<Longrightarrow> d = e"
  apply (drule digit_char_cases)
  apply (drule digit_char_cases)
  apply (auto simp: digit_char_def)
  done

lemma nat_digits_no_minus: "CHR ''-'' \<notin> set (nat_digits n)"
proof (induction n rule: nat_digits.induct)
  case (1 n)
  show ?case
  proof (cases "n < 10")
    case True
    then show ?thesis using digit_char_not_minus [of n] by (simp add: nat_digits.simps)
  next
    case False
    have "n mod 10 < 10" by simp
    then have "digit_char (n mod 10) \<noteq> CHR ''-''" by (rule digit_char_not_minus)
    then show ?thesis using False 1 by (subst nat_digits.simps) auto
  qed
qed

lemma nat_digits_nonempty: "nat_digits n \<noteq> []"
  by (subst nat_digits.simps) simp

lemma nat_digits_inj: "nat_digits n = nat_digits m \<Longrightarrow> n = m"
proof (induction n arbitrary: m rule: nat_digits.induct)
  case (1 n)
  show ?case
  proof (cases "n < 10")
    case n: True
    show ?thesis
    proof (cases "m < 10")
      case True
      then show ?thesis using n "1.prems" digit_char_inj by (simp add: nat_digits.simps)
    next
      case False
      then have "nat_digits m = nat_digits (m div 10) @ [digit_char (m mod 10)]"
        by (subst nat_digits.simps) simp
      moreover have "nat_digits n = [digit_char n]" using n by (simp add: nat_digits.simps)
      ultimately show ?thesis using "1.prems" nat_digits_nonempty [of "m div 10"] by simp
    qed
  next
    case n: False
    then have dn: "nat_digits n = nat_digits (n div 10) @ [digit_char (n mod 10)]"
      by (subst nat_digits.simps) simp
    show ?thesis
    proof (cases "m < 10")
      case True
      then have "nat_digits m = [digit_char m]" by (simp add: nat_digits.simps)
      then show ?thesis using dn "1.prems" nat_digits_nonempty [of "n div 10"] by simp
    next
      case False
      then have dm: "nat_digits m = nat_digits (m div 10) @ [digit_char (m mod 10)]"
        by (subst nat_digits.simps) simp
      from dn dm "1.prems" have a: "nat_digits (n div 10) = nat_digits (m div 10)"
        and b: "digit_char (n mod 10) = digit_char (m mod 10)" by simp_all
      from "1.IH" [OF n a] have "n div 10 = m div 10" .
      moreover from b have "n mod 10 = m mod 10" by (intro digit_char_inj) simp_all
      ultimately show ?thesis by (metis div_mult_mod_eq)
    qed
  qed
qed

lemma split_at_last_minus:
  assumes "a @ CHR ''-'' # x = b @ CHR ''-'' # y" "CHR ''-'' \<notin> set x" "CHR ''-'' \<notin> set y"
  shows "a = b \<and> x = y"
proof -
  have "rev x @ CHR ''-'' # rev a = rev y @ CHR ''-'' # rev b"
    using arg_cong [OF assms(1), of rev] by simp
  moreover have "takeWhile (\<lambda>c. c \<noteq> CHR ''-'') (rev x @ CHR ''-'' # rev a) = rev x"
    using assms(2) by (subst takeWhile_append2) auto
  moreover have "takeWhile (\<lambda>c. c \<noteq> CHR ''-'') (rev y @ CHR ''-'' # rev b) = rev y"
    using assms(3) by (subst takeWhile_append2) auto
  ultimately have "rev x = rev y" by simp
  then show ?thesis using assms(1) by simp
qed

lemma work_id_inj:
  assumes "work_id row s = work_id row' s'" "0 \<le> s" "0 \<le> s'"
  shows "row ! 0 = row' ! 0 \<and> s = s'"
proof -
  have "row ! 0 @ CHR ''-'' # nat_digits (nat s) = row' ! 0 @ CHR ''-'' # nat_digits (nat s')"
    using assms by (simp add: work_id_def Itoa_def)
  then have "row ! 0 = row' ! 0 \<and> nat_digits (nat s) = nat_digits (nat s')"
    by (rule split_at_last_minus) (rule nat_digits_no_minus)+
  then have "row ! 0 = row' ! 0" and "nat s = nat s'"
    using nat_digits_inj by blast+
  then show ?thesis using assms(2,3) by simp
qed

lemma work_id_nonempty: "work_id row s \<noteq> []"
  by (simp add: work_id_def)

subsection \<open>The start-up loops\<close>

lemma validate_pages_None: "validate_pages lib pages = None \<longleftrightarrow> list_all (valid_row lib) pages"
  by (induction pages) (auto simp: valid_row_def split: option.splits)

lemma create_item_valid:
  assumes "valid_row lib row"
  shows "create_item lib cfg stat s row st =
     Inr (if stat (outputFileName cfg (work_id row s)) = StatNotExist
          then st\<lparr>work := fmupd (work_id row s) (the (unit_for lib cfg s row)) (work st)\<rparr>
          else st\<lparr>done_count := done_count st + 1\<rparr>)"
  using assms by (auto simp: create_item_def valid_row_def unit_for_def Let_def)

lemma pages_loop_result:
  assumes "list_all (valid_row lib) rows"
  shows "\<exists>st'. pages_loop lib cfg stat s rows st = Inr st'
      \<and> files st' = files st \<and> workers st' = workers st
      \<and> done_count st' = done_count st
          + int (length (filter (\<lambda>r. stat (outputFileName cfg (work_id r s)) \<noteq> StatNotExist) rows))
      \<and> (\<forall>k. fmlookup (work st') k =
            (let rs = filter (\<lambda>r. work_id r s = k
                               \<and> stat (outputFileName cfg k) = StatNotExist) rows
             in if rs = [] then fmlookup (work st) k else unit_for lib cfg s (last rs)))"
  using assms
proof (induction rows arbitrary: st)
  case Nil
  then show ?case by simp
next
  case (Cons row rows)
  then have v: "valid_row lib row" and vs: "list_all (valid_row lib) rows" by simp_all
  from v obtain u where u: "unit_for lib cfg s row = Some u"
    by (auto simp: valid_row_def unit_for_def)
  let ?st1 = "if stat (outputFileName cfg (work_id row s)) = StatNotExist
          then st\<lparr>work := fmupd (work_id row s) u (work st)\<rparr>
          else st\<lparr>done_count := done_count st + 1\<rparr>"
  have c: "create_item lib cfg stat s row st = Inr ?st1"
    using create_item_valid [OF v] u by simp
  have f1: "files ?st1 = files st" by simp
  from Cons.IH [OF vs, of ?st1] obtain st' where
    st': "pages_loop lib cfg stat s rows ?st1 = Inr st'"
      "files st' = files ?st1" "workers st' = workers ?st1"
      "done_count st' = done_count ?st1
          + int (length (filter (\<lambda>r. stat (outputFileName cfg (work_id r s)) \<noteq> StatNotExist) rows))"
      "\<And>k. fmlookup (work st') k =
            (let rs = filter (\<lambda>r. work_id r s = k
                               \<and> stat (outputFileName cfg k) = StatNotExist) rows
             in if rs = [] then fmlookup (work ?st1) k else unit_for lib cfg s (last rs))"
    by blast
  have "pages_loop lib cfg stat s (row # rows) st = Inr st'"
    using c st'(1) by simp
  moreover have "files st' = files st" "workers st' = workers st"
    using st'(2,3) by (simp_all split: if_splits)
  moreover have "done_count st' = done_count st
          + int (length (filter (\<lambda>r. stat (outputFileName cfg (work_id r s)) \<noteq> StatNotExist) (row # rows)))"
    using st'(4) unfolding f1 by (simp split: if_splits)
  moreover have "fmlookup (work st') k =
            (let rs = filter (\<lambda>r. work_id r s = k
                               \<and> stat (outputFileName cfg k) = StatNotExist) (row # rows)
             in if rs = [] then fmlookup (work st) k else unit_for lib cfg s (last rs))" for k
    using st'(5) [of k] u unfolding f1 by (auto simp: Let_def)
  ultimately show ?case by blast
qed

lemma product_from:
  assumes "0 \<le> s" "s < n"
  shows "List.product (map int [nat s..<nat n]) pages =
         map (Pair s) pages @ List.product (map int [nat (s + 1)..<nat n]) pages"
proof -
  have "nat s < nat n" using assms by simp
  then have "[nat s..<nat n] = nat s # [Suc (nat s)..<nat n]" by (rule upt_conv_Cons)
  moreover have "Suc (nat s) = nat (s + 1)" using assms by simp
  ultimately show ?thesis using assms by simp
qed

lemma product_done:
  assumes "\<not> s < n"
  shows "List.product (map int [nat s..<nat n]) pages = []"
  using assms by simp

lemma samples_loop_result:
  assumes "list_all (valid_row lib) pages" "0 \<le> s0"
  shows "\<exists>st'. samples_loop lib cfg stat pages s0 st = Inr st'
      \<and> files st' = files st \<and> workers st' = workers st
      \<and> done_count st' = done_count st
          + int (length (filter (\<lambda>(s, r). stat (outputFileName cfg (work_id r s)) \<noteq> StatNotExist)
                  (List.product (map int [nat s0..<nat (samples cfg)]) pages)))
      \<and> (\<forall>s row. 0 \<le> s \<longrightarrow> row \<in> set pages \<longrightarrow>
            fmlookup (work st') (work_id row s) =
              (if s0 \<le> s \<and> s < samples cfg
                  \<and> stat (outputFileName cfg (work_id row s)) = StatNotExist
               then unit_for lib cfg s (last (filter (\<lambda>r. r ! 0 = row ! 0) pages))
               else fmlookup (work st) (work_id row s)))"
  using assms
proof (induction lib cfg stat pages s0 st rule: samples_loop.induct)
  case (1 lib cfg stat pages s0 st)
  show ?case
  proof (cases "s0 < samples cfg")
    case False
    then have "samples_loop lib cfg stat pages s0 st = Inr st"
      by (subst samples_loop.simps) simp
    then show ?thesis using False by (auto simp: product_done)
  next
    case True
    note lt = True
    from pages_loop_result [OF "1.prems"(1), of cfg stat s0 st] obtain st1 where
      st1: "pages_loop lib cfg stat s0 pages st = Inr st1"
        "files st1 = files st" "workers st1 = workers st"
        "done_count st1 = done_count st
          + int (length (filter (\<lambda>r. stat (outputFileName cfg (work_id r s0)) \<noteq> StatNotExist) pages))"
        "\<And>k. fmlookup (work st1) k =
            (let rs = filter (\<lambda>r. work_id r s0 = k
                               \<and> stat (outputFileName cfg k) = StatNotExist) pages
             in if rs = [] then fmlookup (work st) k else unit_for lib cfg s0 (last rs))"
      by blast
    have nn: "0 \<le> s0 + 1" using "1.prems"(2) by simp
    from "1.IH" [OF True st1(1) "1.prems"(1) nn] obtain st' where
      st': "samples_loop lib cfg stat pages (s0 + 1) st1 = Inr st'"
        "files st' = files st1" "workers st' = workers st1"
        "done_count st' = done_count st1
          + int (length (filter (\<lambda>(s, r). stat (outputFileName cfg (work_id r s)) \<noteq> StatNotExist)
                  (List.product (map int [nat (s0 + 1)..<nat (samples cfg)]) pages)))"
        "\<And>s row. 0 \<le> s \<Longrightarrow> row \<in> set pages \<Longrightarrow>
            fmlookup (work st') (work_id row s) =
              (if s0 + 1 \<le> s \<and> s < samples cfg
                  \<and> stat (outputFileName cfg (work_id row s)) = StatNotExist
               then unit_for lib cfg s (last (filter (\<lambda>r. r ! 0 = row ! 0) pages))
               else fmlookup (work st1) (work_id row s))"
      by blast
    have run: "samples_loop lib cfg stat pages s0 st = Inr st'"
      using True st1(1) st'(1) by (subst samples_loop.simps) simp
    have frame: "files st' = files st" "workers st' = workers st"
      using st1(2,3) st'(2,3) by simp_all
    have cnt: "done_count st' = done_count st
          + int (length (filter (\<lambda>(s, r). stat (outputFileName cfg (work_id r s)) \<noteq> StatNotExist)
                  (List.product (map int [nat s0..<nat (samples cfg)]) pages)))"
      using st'(4) st1(4) unfolding st1(2) product_from [OF "1.prems"(2) True]
      by (simp add: filter_map o_def)
    have look: "fmlookup (work st') (work_id row s) =
              (if s0 \<le> s \<and> s < samples cfg
                  \<and> stat (outputFileName cfg (work_id row s)) = StatNotExist
               then unit_for lib cfg s (last (filter (\<lambda>r. r ! 0 = row ! 0) pages))
               else fmlookup (work st) (work_id row s))"
      if s: "0 \<le> s" and row: "row \<in> set pages" for s row
    proof -
      have same: "work_id r s0 = work_id row s \<longleftrightarrow> r ! 0 = row ! 0 \<and> s0 = s" for r
        using work_id_inj [of r s0 row s] s "1.prems"(2) by (auto simp: work_id_def)
      have mid: "fmlookup (work st1) (work_id row s) =
          (if s = s0 \<and> stat (outputFileName cfg (work_id row s)) = StatNotExist
           then unit_for lib cfg s0 (last (filter (\<lambda>r. r ! 0 = row ! 0) pages))
           else fmlookup (work st) (work_id row s))"
      proof (cases "s = s0 \<and> stat (outputFileName cfg (work_id row s)) = StatNotExist")
        case True
        then have "filter (\<lambda>r. work_id r s0 = work_id row s
                     \<and> stat (outputFileName cfg (work_id row s)) = StatNotExist) pages
                 = filter (\<lambda>r. r ! 0 = row ! 0) pages"
          using same by auto
        moreover have "filter (\<lambda>r. r ! 0 = row ! 0) pages \<noteq> []"
          using row by (auto simp: filter_empty_conv)
        ultimately have "fmlookup (work st1) (work_id row s) =
            unit_for lib cfg s0 (last (filter (\<lambda>r. r ! 0 = row ! 0) pages))"
          using st1(5) [of "work_id row s"] by (simp add: Let_def)
        then show ?thesis using True by auto
      next
        case False
        then have "filter (\<lambda>r. work_id r s0 = work_id row s
                     \<and> stat (outputFileName cfg (work_id row s)) = StatNotExist) pages = []"
          using same by (auto simp: filter_empty_conv)
        then have "fmlookup (work st1) (work_id row s) = fmlookup (work st) (work_id row s)"
          using st1(5) [of "work_id row s"] by (simp add: Let_def)
        then show ?thesis using False by auto
      qed
      show ?thesis
      proof (cases "s = s0")
        case True
        then show ?thesis
          using st'(5) [OF s row] mid lt unfolding st1(2) by simp
      next
        case False
        then have "s0 + 1 \<le> s \<longleftrightarrow> s0 \<le> s" by arith
        then show ?thesis
          using st'(5) [OF s row] mid False unfolding st1(2) by simp
      qed
    qed
    show ?thesis using run frame cnt look by blast
  qed
qed

lemma last_filter_distinct:
  assumes "distinct (map (\<lambda>r. r ! 0) pages)" "row \<in> set pages"
  shows "last (filter (\<lambda>r. r ! 0 = row ! 0) pages) = row"
proof -
  have "filter (\<lambda>r. r ! 0 = row ! 0) pages = [row]"
    using assms
  proof (induction pages)
    case Nil
    then show ?case by simp
  next
    case (Cons p ps)
    show ?case
    proof (cases "p = row")
      case True
      then have "\<forall>r \<in> set ps. r ! 0 \<noteq> row ! 0" using Cons.prems(1) by (auto simp: image_iff)
      then have "filter (\<lambda>r. r ! 0 = row ! 0) ps = []" by (auto simp: filter_empty_conv)
      then show ?thesis using True by simp
    next
      case False
      then have "row \<in> set ps" using Cons.prems(2) by simp
      moreover then have "p ! 0 \<noteq> row ! 0" using Cons.prems(1) by (auto simp: image_iff)
      ultimately show ?thesis using Cons by simp
    qed
  qed
  then show ?thesis by simp
qed

subsection \<open>Counting units\<close>

lemma ledger_size_upd: "fcard (fmdom (fmupd k v m)) \<le> Suc (fcard (fmdom m))"
  by (simp add: fcard_finsert_if)

lemma ledger_size_drop: "fcard (fmdom (fmdrop k m)) \<le> fcard (fmdom m)"
  by (simp add: fcard_fminus1_le)

lemma ledger_size_drop_in:
  "fmlookup m k = Some v \<Longrightarrow> Suc (fcard (fmdom (fmdrop k m))) = fcard (fmdom m)"
proof -
  assume "fmlookup m k = Some v"
  then have "k |\<in>| fmdom m" by (rule fmdomI)
  then have "Suc (fcard (fmdom m |-| {|k|})) = fcard (fmdom m)" by (rule fcard_Suc_fminus1)
  then show ?thesis by (simp only: fmdom_drop)
qed

lemma length_remove1_int:
  "x \<in> set xs \<Longrightarrow> int (length (remove1 x xs)) = int (length xs) - 1"
  by (induction xs) auto

lemma create_item_load:
  assumes "create_item lib cfg stat s row st = Inr st'"
  shows "int (ledger_size st') + done_count st' \<le> int (ledger_size st) + done_count st + 1"
    and "ledger_ok st \<Longrightarrow> ledger_ok st'"
  using assms ledger_size_upd [of "work_id row s" _ "work st"]
  by (auto simp: create_item_def Let_def ledger_size_def ledger_ok_def work_id_def
      intro!: fmpred_upd split: if_splits option.splits)

lemma pages_loop_load:
  assumes "pages_loop lib cfg stat s rows st = Inr st'"
  shows "int (ledger_size st') + done_count st'
         \<le> int (ledger_size st) + done_count st + int (length rows)
       \<and> (ledger_ok st \<longrightarrow> ledger_ok st')"
  using assms
proof (induction rows arbitrary: st)
  case Nil
  then show ?case by simp
next
  case (Cons row rows)
  then obtain st1 where c: "create_item lib cfg stat s row st = Inr st1"
    and r: "pages_loop lib cfg stat s rows st1 = Inr st'"
    by (auto split: sum.splits)
  show ?case
    using create_item_load [OF c] Cons.IH [OF r] by auto
qed

lemma samples_loop_load:
  assumes "samples_loop lib cfg stat pages s0 st = Inr st'" "s0 \<le> samples cfg"
  shows "int (ledger_size st') + done_count st'
         \<le> int (ledger_size st) + done_count st + int (length pages) * (samples cfg - s0)
       \<and> (ledger_ok st \<longrightarrow> ledger_ok st')"
  using assms
proof (induction lib cfg stat pages s0 st rule: samples_loop.induct)
  case (1 lib cfg stat pages s0 st)
  show ?case
  proof (cases "s0 < samples cfg")
    case False
    then have "st' = st" using "1.prems"(1) by (subst (asm) samples_loop.simps) simp
    moreover have "s0 = samples cfg" using False "1.prems"(2) by simp
    ultimately show ?thesis by simp
  next
    case True
    then obtain st1 where p: "pages_loop lib cfg stat s0 pages st = Inr st1"
      and r: "samples_loop lib cfg stat pages (s0 + 1) st1 = Inr st'"
      using "1.prems"(1) by (subst (asm) samples_loop.simps) (auto split: sum.splits)
    have le: "s0 + 1 \<le> samples cfg" using True by simp
    have "int (length pages) + int (length pages) * (samples cfg - (s0 + 1))
          = int (length pages) * (samples cfg - s0)"
      by (simp add: algebra_simps)
    then show ?thesis
      using pages_loop_load [OF p] "1.IH" [OF True p r le] by auto
  qed
qed

lemma main_load_load:
  assumes "main_load lib cfg stat fs pages = Inr st0" "0 \<le> samples cfg"
  shows "int (ledger_size st0) + done_count st0 \<le> total cfg pages" and "ledger_ok st0"
proof -
  let ?init = "\<lparr>work = fmempty, workers = fmempty, done_count = 0, files = fs\<rparr>"
  from assms(1) have run: "samples_loop lib cfg stat pages 0 ?init = Inr st0"
    by (auto simp: main_load_def split: option.splits)
  have "ledger_ok ?init" by (simp add: ledger_ok_def)
  moreover have "ledger_size ?init = 0" by (simp add: ledger_size_def)
  ultimately show "int (ledger_size st0) + done_count st0 \<le> total cfg pages" and "ledger_ok st0"
    using samples_loop_load [OF run assms(2)] by (simp_all add: total_def)
qed

lemma samples_loop_ledger_ok:
  assumes "samples_loop lib cfg stat pages s0 st = Inr st'" "ledger_ok st"
  shows "ledger_ok st'"
  using assms
proof (induction lib cfg stat pages s0 st rule: samples_loop.induct)
  case (1 lib cfg stat pages s0 st)
  show ?case
  proof (cases "s0 < samples cfg")
    case False
    then have "st' = st" using "1.prems"(1) by (subst (asm) samples_loop.simps) simp
    then show ?thesis using "1.prems"(2) by simp
  next
    case True
    then obtain st1 where p: "pages_loop lib cfg stat s0 pages st = Inr st1"
      and r: "samples_loop lib cfg stat pages (s0 + 1) st1 = Inr st'"
      using "1.prems"(1) by (subst (asm) samples_loop.simps) (auto split: sum.splits)
    have "ledger_ok st1" using pages_loop_load [OF p] "1.prems"(2) by simp
    then show ?thesis using "1.IH" [OF True p r] by simp
  qed
qed

lemma main_load_ledger_ok:
  assumes "main_load lib cfg stat fs pages = Inr st0"
  shows "ledger_ok st0"
proof -
  let ?init = "\<lparr>work = fmempty, workers = fmempty, done_count = 0, files = fs\<rparr>"
  from assms have run: "samples_loop lib cfg stat pages 0 ?init = Inr st0"
    by (auto simp: main_load_def split: option.splits)
  have "ledger_ok ?init" by (simp add: ledger_ok_def)
  then show ?thesis using samples_loop_ledger_ok [OF run] by simp
qed

lemma ledger_ok_iff:
  "ledger_ok st \<longleftrightarrow> (\<forall>k it. fmlookup (work st) k = Some it \<longrightarrow> k \<noteq> [] \<and> item_ID it = k)"
  unfolding ledger_ok_def fmpred_iff ..

lemma intake_load:
  assumes "ID b = [] \<or> ID b \<in> set held" "intake cfg io b st = (st1, e)"
  shows "int (ledger_size st1) + done_count st1
           + int (length (if e = None \<and> ID b \<noteq> [] then remove1 (ID b) held else held))
         \<le> int (ledger_size st) + done_count st + int (length held)"
proof (cases "ID b = []")
  case True
  then show ?thesis using assms(2) by (simp add: intake_def)
next
  case False
  then have "ID b \<in> set held" using assms(1) by simp
  then have len: "int (length (remove1 (ID b) held)) = int (length held) - 1"
    by (rule length_remove1_int)
  show ?thesis
    using assms(2) False len ledger_size_upd [of "ID b" _ "work st"]
      ledger_size_drop [of "ID b" "work st"]
    by (auto simp: intake_def store_def WriteFile_def ledger_size_def
        split: if_splits option.splits prod.splits write_outcome.splits)
qed

lemma find_work_load:
  assumes "(st', res) \<in> find_work cfg st1"
  shows "\<exists>r. res = Reply r
      \<and> int (ledger_size st') + done_count st'
           + int (length (if ID r \<noteq> [] then ID r # held else held))
         \<le> int (ledger_size st1) + done_count st1 + int (length held)"
  using assms
proof (cases rule: find_work_cases)
  case idle
  then show ?thesis by (simp add: no_work_def)
next
  case (unit k it)
  then show ?thesis
    using ledger_size_drop_in [OF unit(1)] by (auto simp: ledger_size_def)
qed

lemma Work_load:
  assumes "reported_ok held req" "(st', res) \<in> Work cfg io st req"
  shows "int (ledger_size st') + done_count st' + int (length (track held req res))
         \<le> int (ledger_size st) + done_count st + int (length held)"
proof -
  from assms(1) obtain b where b: "Browse req = Some b" and ok: "ID b = [] \<or> ID b \<in> set held"
    by (auto simp: reported_ok_def split: option.splits)
  let ?st0 = "register_worker (WorkerID req) st"
  obtain st1 e where i: "intake cfg io b ?st0 = (st1, e)"
    by (cases "intake cfg io b ?st0")
  have size0: "ledger_size ?st0 = ledger_size st" by (simp add: ledger_size_def)
  note il = intake_load [OF ok i]
  show ?thesis
  proof (cases e)
    case (Some err)
    then have "st' = st1" "res = Failure err" using assms(2) b i by (simp_all add: Work_def)
    then show ?thesis using il Some size0 by (simp add: track_def)
  next
    case None
    then have "(st', res) \<in> find_work cfg st1" using assms(2) b i by (simp add: Work_def)
    from find_work_load [OF this,
        of "if ID b \<noteq> [] then remove1 (ID b) held else held"]
    obtain r where r: "res = Reply r"
      and fl: "int (ledger_size st') + done_count st'
           + int (length (if ID r \<noteq> [] then ID r # (if ID b \<noteq> [] then remove1 (ID b) held else held)
                          else (if ID b \<noteq> [] then remove1 (ID b) held else held)))
         \<le> int (ledger_size st1) + done_count st1
           + int (length (if ID b \<noteq> [] then remove1 (ID b) held else held))"
      by blast
    have t: "track held req res =
        (if ID r \<noteq> [] then ID r # (if ID b \<noteq> [] then remove1 (ID b) held else held)
         else (if ID b \<noteq> [] then remove1 (ID b) held else held))"
      using r b by (simp add: track_def Let_def)
    have "int (ledger_size st1) + done_count st1
           + int (length (if ID b \<noteq> [] then remove1 (ID b) held else held))
         \<le> int (ledger_size st) + done_count st + int (length held)"
      using il None size0 by (simp split: if_splits)
    then show ?thesis using fl unfolding t by linarith
  qed
qed

subsection \<open>The scenario of the specification, evaluated\<close>

lemma find_work_empty: "work st = fmempty \<Longrightarrow> find_work cfg st = {(st, Reply (no_work cfg))}"
  by (simp add: find_work_def)

lemma find_work_single:
  assumes "work st = fmupd k it fmempty"
  shows "find_work cfg st =
     {(st\<lparr>work := fmempty\<rparr>,
       Reply \<lparr>ID = item_ID it, URL = item_URL it, Timeout = timeout cfg, Data = [],
              AllTraffic = alltraffic cfg\<rparr>)}"
proof -
  have ne: "work st \<noteq> fmempty"
    using assms by (metis fmempty_lookup fmupd_lookup option.distinct(1))
  have "fset (fset_of_fmap (work st)) = {(k, it)}"
    using assms by (auto simp: fset_of_fmap_iff' split: if_splits)
  moreover have "fmdrop k (work st) = fmempty"
    using assms by (simp add: fmdrop_fmupd_same)
  ultimately show ?thesis using ne by (simp add: find_work_def hand_out_def)
qed

lemma scenario_file: "outputFileName (default_flags\<lparr>minDataLen := 10\<rparr>) ''a-0'' = ''data/a-0.pcap''"
  by (simp add: outputFileName_def default_flags_def path_Clean_def)

lemma scenario_id: "work_id [''a'', ''a.com''] 0 = ''a-0''"
  by (simp add: work_id_def Itoa_def nat_digits.simps digit_char_def)

lemma scenario_target:
  "go_Parse ''a.com'' = Some \<lparr>Scheme = [], Opaque = [], Host = [], Path = ''a.com''\<rparr>"
  "go_String \<lparr>Scheme = ''http'', Opaque = [], Host = [], Path = ''a.com''\<rparr> = ''http://a.com''"
  by (simp_all add: go_Parse_def getScheme_def is_letter_def is_digit_def plain_def go_String_def)

lemma scenario_load:
  "main_load go_url (default_flags\<lparr>minDataLen := 10\<rparr>) (disk_Stat fmempty) fmempty [[''a'', ''a.com'']] =
     Inr \<lparr>work = fmupd ''a-0'' \<lparr>item_ID = ''a-0'', item_URL = ''http://a.com''\<rparr> fmempty,
          workers = fmempty, done_count = 0, files = fmempty\<rparr>"
proof -
  have flags: "samples (default_flags\<lparr>minDataLen := 10\<rparr>) = 1" "scheme (default_flags\<lparr>minDataLen := 10\<rparr>) = ''http''"
    by (simp_all add: default_flags_def)
  have "create_item go_url (default_flags\<lparr>minDataLen := 10\<rparr>) (disk_Stat fmempty) 0 [''a'', ''a.com'']
          \<lparr>work = fmempty, workers = fmempty, done_count = 0, files = fmempty\<rparr>
        = Inr \<lparr>work = fmupd ''a-0'' \<lparr>item_ID = ''a-0'', item_URL = ''http://a.com''\<rparr> fmempty,
          workers = fmempty, done_count = 0, files = fmempty\<rparr>"
    by (simp add: create_item_def go_url_def scenario_target scenario_id flags Let_def
        disk_Stat_def)
  then show ?thesis
    by (simp add: main_load_def go_url_def scenario_target
        samples_loop.simps flags)
qed

lemma scenario_poll1:
  "Work (default_flags\<lparr>minDataLen := 10\<rparr>) io
     \<lparr>work = fmupd ''a-0'' \<lparr>item_ID = ''a-0'', item_URL = ''http://a.com''\<rparr> fmempty,
      workers = fmempty, done_count = 0, files = fmempty\<rparr>
     \<lparr>WorkerID = ''w1'',
      Browse = Some \<lparr>ID = [], URL = [], Timeout = 0, Data = [], AllTraffic = False\<rparr>\<rparr>
   = {(\<lparr>work = fmempty, workers = fmupd ''w1'' ''w1'' fmempty, done_count = 0, files = fmempty\<rparr>,
       Reply \<lparr>ID = ''a-0'', URL = ''http://a.com'', Timeout = 15, Data = [],
              AllTraffic = False\<rparr>)}"
  by (simp add: Work_def register_worker_def intake_def find_work_single
      default_flags_def)

lemma scenario_poll2:
  "Work (default_flags\<lparr>minDataLen := 10\<rparr>) io
     \<lparr>work = fmempty, workers = fmupd ''w1'' ''w1'' fmempty, done_count = 0, files = fmempty\<rparr>
     \<lparr>WorkerID = ''w1'',
      Browse = Some \<lparr>ID = ''a-0'', URL = ''a.com'', Timeout = 15, Data = replicate 5 0,
                     AllTraffic = False\<rparr>\<rparr>
   = {(\<lparr>work = fmempty, workers = fmupd ''w1'' ''w1'' fmempty, done_count = 0, files = fmempty\<rparr>,
       Reply \<lparr>ID = ''a-0'', URL = ''www.a.com'', Timeout = 15, Data = [],
              AllTraffic = False\<rparr>)}"
  by (simp add: Work_def register_worker_def intake_def find_work_single toggle_www_def
      HasPrefix_def default_flags_def)

lemma scenario_poll3:
  "Work (default_flags\<lparr>minDataLen := 10\<rparr>) WriteOk
     \<lparr>work = fmempty, workers = fmupd ''w1'' ''w1'' fmempty, done_count = 0, files = fmempty\<rparr>
     \<lparr>WorkerID = ''w1'',
      Browse = Some \<lparr>ID = ''a-0'', URL = ''www.a.com'', Timeout = 15, Data = replicate 12 0,
                     AllTraffic = False\<rparr>\<rparr>
   = {(\<lparr>work = fmempty, workers = fmupd ''w1'' ''w1'' fmempty, done_count = 1,
        files = fmupd ''data/a-0.pcap'' (replicate 12 0) fmempty\<rparr>,
       Reply \<lparr>ID = [], URL = [], Timeout = 15, Data = [], AllTraffic = False\<rparr>)}"
proof -
  have flags: "minDataLen (default_flags\<lparr>minDataLen := 10\<rparr>) = 10" "timeout (default_flags\<lparr>minDataLen := 10\<rparr>) = 15"
    by (simp_all add: default_flags_def)
  show ?thesis
    by (simp add: Work_def register_worker_def intake_def store_def WriteFile_def
        find_work_empty no_work_def scenario_file flags)
qed

lemma two_samples_load:
  "main_load go_url (default_flags\<lparr>samples := 2\<rparr>)
      (disk_Stat (fmupd ''data/b-1.pcap'' [1] fmempty)) (fmupd ''data/b-1.pcap'' [1] fmempty)
      [[''a'', ''a.com''], [''b'', ''https://b.org/x'']]
   = Inr \<lparr>work = fmupd ''a-1'' \<lparr>item_ID = ''a-1'', item_URL = ''http://a.com''\<rparr>
               (fmupd ''b-0'' \<lparr>item_ID = ''b-0'', item_URL = ''https://b.org/x''\<rparr>
                 (fmupd ''a-0'' \<lparr>item_ID = ''a-0'', item_URL = ''http://a.com''\<rparr> fmempty)),
          workers = fmempty, done_count = 1, files = fmupd ''data/b-1.pcap'' [1] fmempty\<rparr>"
proof -
  have p: "go_Parse ''https://b.org/x''
      = Some \<lparr>Scheme = ''https'', Opaque = [], Host = ''b.org'', Path = ''/x''\<rparr>"
    by (simp add: go_Parse_def getScheme_def is_letter_def is_digit_def plain_def HasPrefix_def
        ToLower_def)
  have s: "go_String \<lparr>Scheme = ''https'', Opaque = [], Host = ''b.org'', Path = ''/x''\<rparr>
      = ''https://b.org/x''"
    by (simp add: go_String_def)
  have ids: "work_id [''a'', ''a.com''] 0 = ''a-0''" "work_id [''a'', ''a.com''] 1 = ''a-1''"
    "work_id [''b'', ''https://b.org/x''] 0 = ''b-0''"
    "work_id [''b'', ''https://b.org/x''] 1 = ''b-1''"
    by (simp_all add: work_id_def Itoa_def nat_digits.simps digit_char_def)
  have f: "outputFileName (default_flags\<lparr>samples := 2\<rparr>) ''a-0'' = ''data/a-0.pcap''"
    "outputFileName (default_flags\<lparr>samples := 2\<rparr>) ''a-1'' = ''data/a-1.pcap''"
    "outputFileName (default_flags\<lparr>samples := 2\<rparr>) ''b-0'' = ''data/b-0.pcap''"
    "outputFileName (default_flags\<lparr>samples := 2\<rparr>) ''b-1'' = ''data/b-1.pcap''"
    by (simp_all add: outputFileName_def default_flags_def path_Clean_def)
  have flags: "samples (default_flags\<lparr>samples := 2\<rparr>) = 2"
    "scheme (default_flags\<lparr>samples := 2\<rparr>) = ''http''"
    by (simp_all add: default_flags_def)
  show ?thesis
    by (simp add: main_load_def go_url_def scenario_target p s ids f flags
        samples_loop.simps create_item_def Let_def disk_Stat_def)
qed

section \<open>The claims\<close>

subsection \<open>Result intake\<close>



text \<open>
  Claim C2. A call of \<^verbatim>\<open>Work\<close> reports a result with a non-empty id and a payload shorter
  than \<^verbatim>\<open>*minDataLen\<close>. Then the unit handed out next is taken from the ledger in which
  the reported id holds a unit with that id and the toggled target, whatever it held
  before; the toggled target is the reported one without its leading \<^verbatim>\<open>www.\<close> if it has
  one, and with \<^verbatim>\<open>www.\<close> in front otherwise; and in every state the call can end in,
  \<^verbatim>\<open>done\<close> and the files are as before.
\<close>

theorem Work_rejects_result:
  assumes "Browse req = Some b" "ID b \<noteq> []" "int (length (Data b)) < minDataLen cfg"
  shows "Work cfg io st req = find_work cfg
           ((register_worker (WorkerID req) st)
              \<lparr>work := fmupd (ID b) \<lparr>item_ID = ID b, item_URL = toggle_www (URL b)\<rparr> (work st)\<rparr>)
       \<and> (\<forall>u. URL b = ''www.'' @ u \<longrightarrow> toggle_www (URL b) = u)
       \<and> ((\<forall>u. URL b \<noteq> ''www.'' @ u) \<longrightarrow> toggle_www (URL b) = ''www.'' @ URL b)
       \<and> (\<forall>st' res. (st', res) \<in> Work cfg io st req \<longrightarrow>
            done_count st' = done_count st \<and> files st' = files st)"
proof -
  let ?st1 = "(register_worker (WorkerID req) st)
              \<lparr>work := fmupd (ID b) \<lparr>item_ID = ID b, item_URL = toggle_www (URL b)\<rparr> (work st)\<rparr>"
  have i: "intake cfg io b (register_worker (WorkerID req) st) = (?st1, None)"
    using intake_reject [OF assms(2,3), of io "register_worker (WorkerID req) st"] by simp
  have W: "Work cfg io st req = find_work cfg ?st1"
    using assms(1) i by (simp add: Work_def)
  have frame: "done_count st' = done_count st \<and> files st' = files st"
    if "(st', res) \<in> Work cfg io st req" for st' res
  proof -
    from that have "(st', res) \<in> find_work cfg ?st1" using W by simp
    then show ?thesis by (cases rule: find_work_cases) auto
  qed
  have strip: "toggle_www (URL b) = u" if "URL b = ''www.'' @ u" for u
    using that by (simp add: toggle_www_def HasPrefix_def)
  have add: "toggle_www (URL b) = ''www.'' @ URL b" if "\<forall>u. URL b \<noteq> ''www.'' @ u"
    using that by (simp add: toggle_www_def HasPrefix_iff)
  show ?thesis using W frame strip add by blast
qed

theorem Work_rejects_result_witness:
  "int (length (replicate 5 (0::byte))) < minDataLen (default_flags\<lparr>minDataLen := 10\<rparr>)
   \<and> Work (default_flags\<lparr>minDataLen := 10\<rparr>) WriteOk
        \<lparr>work = fmempty, workers = fmupd ''w1'' ''w1'' fmempty, done_count = 0, files = fmempty\<rparr>
        \<lparr>WorkerID = ''w1'',
         Browse = Some \<lparr>ID = ''a-0'', URL = ''a.com'', Timeout = 15, Data = replicate 5 0,
                        AllTraffic = False\<rparr>\<rparr>
      = find_work (default_flags\<lparr>minDataLen := 10\<rparr>)
          \<lparr>work = fmupd ''a-0'' \<lparr>item_ID = ''a-0'', item_URL = ''www.a.com''\<rparr> fmempty,
           workers = fmupd ''w1'' ''w1'' fmempty, done_count = 0, files = fmempty\<rparr>"
proof -
  let ?cfg = "default_flags\<lparr>minDataLen := 10\<rparr>"
  let ?b = "\<lparr>ID = ''a-0'', URL = ''a.com'', Timeout = 15, Data = replicate 5 (0::byte),
             AllTraffic = False\<rparr>"
  let ?req = "\<lparr>WorkerID = ''w1'', Browse = Some ?b\<rparr>"
  let ?st = "\<lparr>work = fmempty, workers = fmupd ''w1'' ''w1'' fmempty, done_count = 0,
              files = fmempty\<rparr>"
  have h1: "Browse ?req = Some ?b" by simp
  have h2: "ID ?b \<noteq> []" by simp
  have h3: "int (length (Data ?b)) < minDataLen ?cfg" by simp
  have t: "toggle_www ''a.com'' = ''www.a.com''" by (simp add: toggle_www_def HasPrefix_def)
  have r: "register_worker ''w1'' ?st = ?st" by (simp add: register_worker_def)
  from Work_rejects_result [OF h1 h2 h3, of WriteOk ?st] h3 show ?thesis
    by (simp add: t r)
qed

text \<open>
  Claim C6. A call of \<^verbatim>\<open>Work\<close> reports a result with a non-empty id and a non-empty
  payload of at least \<^verbatim>\<open>*minDataLen\<close> bytes, and the write fails. Then the call has one
  outcome: it returns the I/O error, with \<^verbatim>\<open>done\<close> and the ledger as they were before
  the call, and hands out no unit.
\<close>

theorem Work_store_failure:
  assumes "Browse req = Some b" "ID b \<noteq> []" "minDataLen cfg \<le> int (length (Data b))"
    and "Data b \<noteq> []"
  shows "\<exists>st'. Work cfg (WriteErr p) st req = {(st', Failure IOError)}
           \<and> done_count st' = done_count st \<and> work st' = work st"
proof -
  let ?st0 = "register_worker (WorkerID req) st"
  let ?st' = "?st0\<lparr>files := (case p of None \<Rightarrow> files ?st0
                    | Some d \<Rightarrow> fmupd (outputFileName cfg (ID b)) d (files ?st0))\<rparr>"
  have "intake cfg (WriteErr p) b ?st0 = (?st', Some IOError)"
    by (rule intake_store_fails [OF assms(2,3,4)])
  then have "Work cfg (WriteErr p) st req = {(?st', Failure IOError)}"
    using assms(1) by (simp add: Work_def)
  then show ?thesis by simp
qed

theorem Work_store_failure_witness:
  "minDataLen (default_flags\<lparr>minDataLen := 10\<rparr>) \<le> int (length (replicate 12 (0::byte)))
   \<and> Work (default_flags\<lparr>minDataLen := 10\<rparr>) (WriteErr None)
        \<lparr>work = fmempty, workers = fmupd ''w1'' ''w1'' fmempty, done_count = 0, files = fmempty\<rparr>
        \<lparr>WorkerID = ''w1'',
         Browse = Some \<lparr>ID = ''a-0'', URL = ''www.a.com'', Timeout = 15, Data = replicate 12 0,
                        AllTraffic = False\<rparr>\<rparr>
      = {(\<lparr>work = fmempty, workers = fmupd ''w1'' ''w1'' fmempty, done_count = 0,
           files = fmempty\<rparr>, Failure IOError)}"
proof -
  let ?cfg = "default_flags\<lparr>minDataLen := 10\<rparr>"
  let ?b = "\<lparr>ID = ''a-0'', URL = ''www.a.com'', Timeout = 15, Data = replicate 12 (0::byte),
             AllTraffic = False\<rparr>"
  let ?req = "\<lparr>WorkerID = ''w1'', Browse = Some ?b\<rparr>"
  let ?st = "\<lparr>work = fmempty, workers = fmupd ''w1'' ''w1'' fmempty, done_count = 0,
              files = fmempty\<rparr>"
  have h1: "Browse ?req = Some ?b" by simp
  have h2: "ID ?b \<noteq> []" by simp
  have h3: "minDataLen ?cfg \<le> int (length (Data ?b))" by simp
  have h4: "Data ?b \<noteq> []" by simp
  from Work_store_failure [OF h1 h2 h3 h4, of None ?st] obtain st' where
    w: "Work ?cfg (WriteErr None) ?st ?req = {(st', Failure IOError)}"
    and d: "done_count st' = done_count ?st" "work st' = work ?st" by blast
  have "(?st, Failure IOError) \<in> Work ?cfg (WriteErr None) ?st ?req"
    using h3
    by (simp add: Work_def register_worker_def intake_def store_def WriteFile_def)
  then have "st' = ?st" using w by simp
  then show ?thesis using w h3 by simp
qed

subsection \<open>Assignment\<close>

text \<open>
  Claim C3. In a state whose ledger stores every unit under its own non-empty id (as
  start-up leaves it and every call keeps it), take a call of \<^verbatim>\<open>Work\<close> whose result
  intake ends without error in state \<open>st1\<close>. The call has an outcome. If the ledger of
  \<open>st1\<close> is empty, the call has exactly one outcome: it ends in \<open>st1\<close> and replies the
  no-work message. If the ledger of \<open>st1\<close> is not empty, the outcomes of the call are
  exactly these, one for each unit of that ledger: the reply carries the unit's id and
  target with the configured timeout and all-traffic flag, and the call ends in \<open>st1\<close>
  without that unit. So every outcome is a reply with the configured timeout; the reply
  has the empty id, and is the no-work message, exactly when the ledger of \<open>st1\<close> is
  empty.
\<close>

theorem Work_assigns:
  assumes "ledger_ok st" "Browse req = Some b"
    and "intake cfg io b (register_worker (WorkerID req) st) = (st1, None)"
  shows "Work cfg io st req \<noteq> {}
       \<and> (work st1 = fmempty \<longrightarrow> Work cfg io st req = {(st1, Reply (no_work cfg))})
       \<and> (work st1 \<noteq> fmempty \<longrightarrow>
            Work cfg io st req =
              {(st1\<lparr>work := fmdrop k (work st1)\<rparr>,
                Reply \<lparr>ID = k, URL = item_URL it, Timeout = timeout cfg, Data = [],
                       AllTraffic = alltraffic cfg\<rparr>) | k it. fmlookup (work st1) k = Some it})
       \<and> (\<forall>st' res. (st', res) \<in> Work cfg io st req \<longrightarrow>
            (\<exists>r. res = Reply r \<and> Timeout r = timeout cfg \<and> (ID r = [] \<longleftrightarrow> work st1 = fmempty))
          \<and> (res = Reply (no_work cfg) \<longleftrightarrow> work st1 = fmempty)
          \<and> (work st1 = fmempty \<longrightarrow> st' = st1)
          \<and> (work st1 \<noteq> fmempty \<longrightarrow>
               (\<exists>k it. fmlookup (work st1) k = Some it
                  \<and> res = Reply \<lparr>ID = k, URL = item_URL it, Timeout = timeout cfg, Data = [],
                                  AllTraffic = alltraffic cfg\<rparr>
                  \<and> st' = st1\<lparr>work := fmdrop k (work st1)\<rparr>
                  \<and> fmlookup (work st') k = None)))"
proof -
  have ok1: "ledger_ok st1"
    using intake_ledger_ok [OF _ assms(3)] assms(1) by simp
  have W: "Work cfg io st req = find_work cfg st1"
    using assms(2,3) by (simp add: Work_def)
  have ne: "Work cfg io st req \<noteq> {}"
    unfolding W by (rule find_work_nonempty)
  have idle: "Work cfg io st req = {(st1, Reply (no_work cfg))}" if "work st1 = fmempty"
    unfolding W using that by (rule find_work_empty)
  have key: "item_ID it = k" if "fmlookup (work st1) k = Some it" for k it
    using that ok1 by (auto simp: ledger_ok_def dest: fmpredD)
  have units: "Work cfg io st req =
              {(st1\<lparr>work := fmdrop k (work st1)\<rparr>,
                Reply \<lparr>ID = k, URL = item_URL it, Timeout = timeout cfg, Data = [],
                       AllTraffic = alltraffic cfg\<rparr>) | k it. fmlookup (work st1) k = Some it}"
    if "work st1 \<noteq> fmempty"
  proof -
    have "{(st1\<lparr>work := fmdrop k (work st1)\<rparr>,
            Reply \<lparr>ID = item_ID it, URL = item_URL it, Timeout = timeout cfg, Data = [],
                   AllTraffic = alltraffic cfg\<rparr>) | k it. fmlookup (work st1) k = Some it}
        = {(st1\<lparr>work := fmdrop k (work st1)\<rparr>,
            Reply \<lparr>ID = k, URL = item_URL it, Timeout = timeout cfg, Data = [],
                   AllTraffic = alltraffic cfg\<rparr>) | k it. fmlookup (work st1) k = Some it}"
      using key by (intro Collect_cong) (metis (no_types, lifting))
    then show ?thesis unfolding W find_work_units [OF that] .
  qed
  have each: "(\<exists>r. res = Reply r \<and> Timeout r = timeout cfg \<and> (ID r = [] \<longleftrightarrow> work st1 = fmempty))
          \<and> (res = Reply (no_work cfg) \<longleftrightarrow> work st1 = fmempty)
          \<and> (work st1 = fmempty \<longrightarrow> st' = st1)
          \<and> (work st1 \<noteq> fmempty \<longrightarrow>
               (\<exists>k it. fmlookup (work st1) k = Some it
                  \<and> res = Reply \<lparr>ID = k, URL = item_URL it, Timeout = timeout cfg, Data = [],
                                  AllTraffic = alltraffic cfg\<rparr>
                  \<and> st' = st1\<lparr>work := fmdrop k (work st1)\<rparr>
                  \<and> fmlookup (work st') k = None))"
    if "(st', res) \<in> Work cfg io st req" for st' res
  proof -
    from that have "(st', res) \<in> find_work cfg st1" by (simp add: W)
    then show ?thesis
    proof (cases rule: find_work_cases)
      case idle
      then show ?thesis by (simp add: no_work_def)
    next
      case (unit k it)
      then have ne: "work st1 \<noteq> fmempty" by auto
      from unit(1) ok1 have k: "k \<noteq> []" "item_ID it = k"
        by (auto simp: ledger_ok_def dest: fmpredD)
      have "res \<noteq> Reply (no_work cfg)" using unit(3) k by (auto simp: no_work_def)
      then show ?thesis using unit k ne by auto
    qed
  qed
  show ?thesis
    using ne idle units each by blast
qed

theorem Work_assigns_witness:
  "ledger_ok \<lparr>work = fmempty, workers = fmupd ''w1'' ''w1'' fmempty, done_count = 0,
      files = fmempty\<rparr>
   \<and> Work (default_flags\<lparr>minDataLen := 10\<rparr>) WriteOk
        \<lparr>work = fmempty, workers = fmupd ''w1'' ''w1'' fmempty, done_count = 0, files = fmempty\<rparr>
        \<lparr>WorkerID = ''w1'',
         Browse = Some \<lparr>ID = [], URL = [], Timeout = 0, Data = [], AllTraffic = False\<rparr>\<rparr>
      = {(\<lparr>work = fmempty, workers = fmupd ''w1'' ''w1'' fmempty, done_count = 0,
           files = fmempty\<rparr>,
          Reply (no_work (default_flags\<lparr>minDataLen := 10\<rparr>)))}
   \<and> ledger_ok \<lparr>work = fmupd ''a-0'' \<lparr>item_ID = ''a-0'', item_URL = ''http://a.com''\<rparr> fmempty,
      workers = fmempty, done_count = 0, files = fmempty\<rparr>
   \<and> (\<lparr>work = fmempty, workers = fmupd ''w1'' ''w1'' fmempty, done_count = 0, files = fmempty\<rparr>,
       Reply \<lparr>ID = ''a-0'', URL = ''http://a.com'', Timeout = 15, Data = [], AllTraffic = False\<rparr>)
      \<in> Work (default_flags\<lparr>minDataLen := 10\<rparr>) WriteOk
          \<lparr>work = fmupd ''a-0'' \<lparr>item_ID = ''a-0'', item_URL = ''http://a.com''\<rparr> fmempty,
           workers = fmempty, done_count = 0, files = fmempty\<rparr>
          \<lparr>WorkerID = ''w1'',
           Browse = Some \<lparr>ID = [], URL = [], Timeout = 0, Data = [], AllTraffic = False\<rparr>\<rparr>
   \<and> Reply \<lparr>ID = ''a-0'', URL = ''http://a.com'', Timeout = 15, Data = [], AllTraffic = False\<rparr>
      \<noteq> Reply (no_work (default_flags\<lparr>minDataLen := 10\<rparr>))"
proof -
  let ?cfg = "default_flags\<lparr>minDataLen := 10\<rparr>"
  let ?b = "\<lparr>ID = [], URL = [], Timeout = 0, Data = [], AllTraffic = False\<rparr>"
  let ?req = "\<lparr>WorkerID = ''w1'', Browse = Some ?b\<rparr>"
  let ?idle = "\<lparr>work = fmempty, workers = fmupd ''w1'' ''w1'' fmempty, done_count = 0,
              files = fmempty\<rparr>"
  let ?st = "\<lparr>work = fmupd ''a-0'' \<lparr>item_ID = ''a-0'', item_URL = ''http://a.com''\<rparr> fmempty,
           workers = fmempty, done_count = 0, files = fmempty\<rparr>"
  let ?res = "Reply \<lparr>ID = ''a-0'', URL = ''http://a.com'', Timeout = 15, Data = [],
                AllTraffic = False\<rparr>"
  have b: "Browse ?req = Some ?b" by simp
  txt \<open>The empty ledger: the only outcome is the no-work reply.\<close>
  have ok_idle: "ledger_ok ?idle" by (simp add: ledger_ok_def)
  have i_idle: "intake ?cfg WriteOk ?b (register_worker (WorkerID ?req) ?idle) = (?idle, None)"
    by (simp add: intake_def register_worker_def)
  have e: "work ?idle = fmempty" by simp
  from Work_assigns [OF ok_idle b i_idle]
  have "work ?idle = fmempty \<longrightarrow> Work ?cfg WriteOk ?idle ?req = {(?idle, Reply (no_work ?cfg))}"
    by (rule conjunct1 [OF conjunct2])
  then have idle: "Work ?cfg WriteOk ?idle ?req = {(?idle, Reply (no_work ?cfg))}"
    using e by (rule mp)
  txt \<open>A ledger with one unit: the unit is handed out.\<close>
  have ok: "ledger_ok ?st" by (auto simp: ledger_ok_def intro!: fmpred_upd)
  have i: "intake ?cfg WriteOk ?b (register_worker (WorkerID ?req) ?st)
            = (register_worker ''w1'' ?st, None)"
    by (simp add: intake_def)
  have m: "(?idle, ?res) \<in> Work ?cfg WriteOk ?st ?req" by (simp add: scenario_poll1)
  have "fmlookup (work (register_worker ''w1'' ?st)) ''a-0'' \<noteq> None" by simp
  then have ne: "work (register_worker ''w1'' ?st) \<noteq> fmempty" by (metis fmempty_lookup)
  from Work_assigns [OF ok b i] m
  have "?res = Reply (no_work ?cfg) \<longleftrightarrow> work (register_worker ''w1'' ?st) = fmempty"
    by blast
  then have d: "?res \<noteq> Reply (no_work ?cfg)" using ne by blast
  show ?thesis
    using ok_idle idle ok m d by (intro conjI)
qed

subsection \<open>The www. toggle\<close>

text \<open>
  Claim C4 says that toggling the leading \<^verbatim>\<open>www.\<close> twice yields every target back. It
  does not for a target that starts with \<^verbatim>\<open>www.www.\<close>: the first toggle strips one
  prefix, and the second finds the other and strips it too.
\<close>

theorem toggle_www_twice_counterexample:
  "toggle_www (toggle_www ''www.www.a.com'') \<noteq> ''www.www.a.com''"
  by (simp add: toggle_www_def HasPrefix_def)

text \<open>
  C4, amended: applying the toggle twice yields \<open>t\<close> back for every target \<open>t\<close> that does
  not begin with \<^verbatim>\<open>www.www.\<close>, and for no other target.
\<close>

theorem toggle_www_twice:
  "toggle_www (toggle_www t) = t \<longleftrightarrow> \<not> HasPrefix t ''www.www.''"
proof (cases "HasPrefix t ''www.''")
  case True
  then obtain u where t: "t = ''www.'' @ u"
    by (auto simp: HasPrefix_iff)
  have once: "toggle_www t = u"
    using True by (simp add: toggle_www_def t)
  have inner: "HasPrefix t ''www.www.'' \<longleftrightarrow> HasPrefix u ''www.''"
    by (auto simp: t HasPrefix_iff)
  show ?thesis
  proof (cases "HasPrefix u ''www.''")
    case True
    then have "length (toggle_www u) < length t"
      by (auto simp: toggle_www_def t HasPrefix_iff)
    then show ?thesis
      using True once inner by auto
  next
    case False
    then show ?thesis
      using once inner by (simp add: toggle_www_def t)
  qed
next
  case False
  then have "\<not> HasPrefix t ''www.www.''"
    by (auto simp: HasPrefix_iff)
  moreover have "toggle_www t = ''www.'' @ t"
    using False by (simp add: toggle_www_def)
  moreover have "HasPrefix (''www.'' @ t) ''www.''"
    by (rule HasPrefix_append)
  ultimately show ?thesis
    by (simp add: toggle_www_def)
qed

theorem toggle_www_twice_witness:
  "\<not> HasPrefix ''a.com'' ''www.www.'' \<and> toggle_www (toggle_www ''a.com'') = ''a.com''"
  using toggle_www_twice [of "''a.com''"] by (simp add: HasPrefix_def)

subsection \<open>Output files\<close>

text \<open>
  Claim C5 says that the file of every id lies inside the data directory. The code cleans
  the id with \<^verbatim>\<open>path.Clean\<close>, which keeps the leading \<^verbatim>\<open>..\<close> of a relative path, and
  \<^verbatim>\<open>path.Join\<close> then resolves it against the data directory. With the default flags a
  worker that reports the id \<^verbatim>\<open>../x\<close> with 25 bytes makes the server write \<^verbatim>\<open>x.pcap\<close>,
  beside the directory \<^verbatim>\<open>data\<close> and not inside it.
\<close>

theorem store_escapes_datadir:
  "outputFileName default_flags ''../x'' = ''x.pcap''
   \<and> \<not> HasPrefix ''x.pcap'' ''data/''
   \<and> Work default_flags WriteOk
        \<lparr>work = fmempty, workers = fmempty, done_count = 0, files = fmempty\<rparr>
        \<lparr>WorkerID = ''w1'',
         Browse = Some \<lparr>ID = ''../x'', URL = ''x'', Timeout = 15, Data = replicate 25 0,
                        AllTraffic = False\<rparr>\<rparr>
     = {(\<lparr>work = fmempty, workers = fmupd ''w1'' ''w1'' fmempty, done_count = 1,
          files = fmupd ''x.pcap'' (replicate 25 0) fmempty\<rparr>,
         Reply \<lparr>ID = [], URL = [], Timeout = 15, Data = [], AllTraffic = False\<rparr>)}"
proof -
  have f: "outputFileName default_flags ''../x'' = ''x.pcap''"
    by (simp add: outputFileName_def default_flags_def path_Clean_def backtrack_def)
  have flags: "minDataLen default_flags = 25" "timeout default_flags = 15"
    by (simp_all add: default_flags_def)
  show ?thesis
    by (simp add: f flags HasPrefix_def Work_def register_worker_def intake_def store_def
        WriteFile_def find_work_empty no_work_def)
qed

subsection \<open>Start-up\<close>

text \<open>
  Claim C7 says that start-up counts an id as done if its output file exists and
  otherwise inserts its unit. The loop body asks \<^verbatim>\<open>os.IsNotExist\<close> of the error of
  \<^verbatim>\<open>os.Stat\<close> and takes the \<^verbatim>\<open>else\<close> branch for every other answer, also when
  \<^verbatim>\<open>os.Stat\<close> fails for another reason. With the default flags, the one-row table
  \<^verbatim>\<open>x/y,a.com\<close> and a regular file \<^verbatim>\<open>data/x\<close>, the output file of the id \<^verbatim>\<open>x/y-0\<close> is
  \<^verbatim>\<open>data/x/y-0.pcap\<close>; no such file exists, and \<^verbatim>\<open>os.Stat\<close> fails on it because
  \<^verbatim>\<open>data/x\<close> is not a directory. Start-up then ends with an empty ledger and \<^verbatim>\<open>done\<close>
  equal to 1: the unit is counted as collected and never handed out.
\<close>

theorem main_load_counts_stat_error_as_done:
  "outputFileName default_flags (work_id [''x/y'', ''a.com''] 0) = ''data/x/y-0.pcap''
   \<and> fmlookup (fmupd ''data/x'' [1::byte] fmempty) ''data/x/y-0.pcap'' = None
   \<and> main_load go_url default_flags
        (\<lambda>name. if name = ''data/x'' then StatOk
                else if name = ''data/x/y-0.pcap'' then StatOther else StatNotExist)
        (fmupd ''data/x'' [1] fmempty) [[''x/y'', ''a.com'']]
     = Inr \<lparr>work = fmempty, workers = fmempty, done_count = 1,
            files = fmupd ''data/x'' [1] fmempty\<rparr>"
proof -
  have i: "work_id [''x/y'', ''a.com''] 0 = ''x/y-0''"
    by (simp add: work_id_def Itoa_def nat_digits.simps digit_char_def)
  have f: "outputFileName default_flags ''x/y-0'' = ''data/x/y-0.pcap''"
    by (simp add: outputFileName_def default_flags_def path_Clean_def)
  have flags: "samples default_flags = 1" "scheme default_flags = ''http''"
    by (simp_all add: default_flags_def)
  have c: "create_item go_url default_flags
        (\<lambda>name. if name = ''data/x'' then StatOk
                else if name = ''data/x/y-0.pcap'' then StatOther else StatNotExist)
        0 [''x/y'', ''a.com'']
        \<lparr>work = fmempty, workers = fmempty, done_count = 0, files = fmupd ''data/x'' [1] fmempty\<rparr>
      = Inr \<lparr>work = fmempty, workers = fmempty, done_count = 1,
            files = fmupd ''data/x'' [1] fmempty\<rparr>"
    by (simp add: create_item_def go_url_def scenario_target i f Let_def)
  have l: "main_load go_url default_flags
        (\<lambda>name. if name = ''data/x'' then StatOk
                else if name = ''data/x/y-0.pcap'' then StatOther else StatNotExist)
        (fmupd ''data/x'' [1] fmempty) [[''x/y'', ''a.com'']]
     = Inr \<lparr>work = fmempty, workers = fmempty, done_count = 1,
            files = fmupd ''data/x'' [1] fmempty\<rparr>"
    using c by (simp add: main_load_def go_url_def scenario_target samples_loop.simps flags)
  have n: "fmlookup (fmupd ''data/x'' [1::byte] fmempty) ''data/x/y-0.pcap'' = None" by simp
  show ?thesis using i f l n by simp
qed

subsection \<open>Conservation\<close>

text \<open>
  Claim C8 bounds the ledger size plus \<^verbatim>\<open>done\<close> plus the number of units held by workers
  by \<^verbatim>\<open>len(pages) * *samples\<close>. With the flag \<^verbatim>\<open>-s -1\<close> the loops create nothing, the three
  numbers are 0, and the product is \<open>- 1\<close>.
\<close>

theorem conservation_counterexample:
  "main_load go_url (default_flags\<lparr>samples := - 1\<rparr>) (disk_Stat fmempty) fmempty [[''a'', ''a.com'']] =
     Inr \<lparr>work = fmempty, workers = fmempty, done_count = 0, files = fmempty\<rparr>
   \<and> reachable (default_flags\<lparr>samples := - 1\<rparr>)
       \<lparr>work = fmempty, workers = fmempty, done_count = 0, files = fmempty\<rparr>
       (\<lparr>work = fmempty, workers = fmempty, done_count = 0, files = fmempty\<rparr>, [])
   \<and> \<not> int (ledger_size \<lparr>work = fmempty, workers = fmempty, done_count = 0, files = fmempty\<rparr>)
         + done_count \<lparr>work = fmempty, workers = fmempty, done_count = 0, files = fmempty\<rparr>
         + int (length ([] :: string list))
       \<le> total (default_flags\<lparr>samples := - 1\<rparr>) [[''a'', ''a.com'']]"
proof -
  have "main_load go_url (default_flags\<lparr>samples := - 1\<rparr>) (disk_Stat fmempty) fmempty [[''a'', ''a.com'']] =
     Inr \<lparr>work = fmempty, workers = fmempty, done_count = 0, files = fmempty\<rparr>"
    by (simp add: main_load_def go_url_def scenario_target samples_loop.simps)
  moreover have "total (default_flags\<lparr>samples := - 1\<rparr>) [[''a'', ''a.com'']] = - 1"
    by (simp add: total_def)
  ultimately show ?thesis
    by (simp add: reachable.start ledger_size_def)
qed

text \<open>
  C8, amended: for a sample count that is not negative, in every state reached from the
  state after start-up by calls of well-behaved workers, the ledger size plus \<^verbatim>\<open>done\<close>
  plus the number of units handed out and not yet reported is at most
  \<^verbatim>\<open>len(pages) * *samples\<close>.
\<close>

theorem conservation:
  assumes "main_load lib cfg stat fs pages = Inr st0" "0 \<le> samples cfg"
    and "reachable cfg st0 (st, held)"
  shows "int (ledger_size st) + done_count st + int (length held) \<le> total cfg pages"
proof -
  have "int (ledger_size (fst sh)) + done_count (fst sh) + int (length (snd sh)) \<le> total cfg pages"
    if "reachable cfg st0 sh" for sh
    using that
  proof (induction rule: reachable.induct)
    case start
    then show ?case using main_load_load(1) [OF assms(1,2)] by simp
  next
    case (poll st held req st' res io)
    then show ?case using Work_load [OF poll(2,3)] by simp
  qed
  from this [OF assms(3)] show ?thesis by simp
qed

theorem conservation_witness:
  "main_load go_url (default_flags\<lparr>minDataLen := 10\<rparr>) (disk_Stat fmempty) fmempty [[''a'', ''a.com'']] =
     Inr \<lparr>work = fmupd ''a-0'' \<lparr>item_ID = ''a-0'', item_URL = ''http://a.com''\<rparr> fmempty,
          workers = fmempty, done_count = 0, files = fmempty\<rparr>
   \<and> 0 \<le> samples (default_flags\<lparr>minDataLen := 10\<rparr>)
   \<and> reachable (default_flags\<lparr>minDataLen := 10\<rparr>)
       \<lparr>work = fmupd ''a-0'' \<lparr>item_ID = ''a-0'', item_URL = ''http://a.com''\<rparr> fmempty,
        workers = fmempty, done_count = 0, files = fmempty\<rparr>
       (\<lparr>work = fmempty, workers = fmupd ''w1'' ''w1'' fmempty, done_count = 0,
         files = fmempty\<rparr>, [''a-0''])
   \<and> int (ledger_size \<lparr>work = fmempty, workers = fmupd ''w1'' ''w1'' fmempty, done_count = 0,
         files = fmempty\<rparr>) + 0 + int (length [''a-0''])
       \<le> total (default_flags\<lparr>minDataLen := 10\<rparr>) [[''a'', ''a.com'']]"
proof -
  let ?cfg = "default_flags\<lparr>minDataLen := 10\<rparr>"
  let ?st0 = "\<lparr>work = fmupd ''a-0'' \<lparr>item_ID = ''a-0'', item_URL = ''http://a.com''\<rparr> fmempty,
        workers = fmempty, done_count = 0, files = fmempty\<rparr>"
  let ?st1 = "\<lparr>work = fmempty, workers = fmupd ''w1'' ''w1'' fmempty, done_count = 0,
         files = fmempty\<rparr>"
  let ?req = "\<lparr>WorkerID = ''w1'',
        Browse = Some \<lparr>ID = [], URL = [], Timeout = 0, Data = [], AllTraffic = False\<rparr>\<rparr>"
  let ?res = "Reply \<lparr>ID = ''a-0'', URL = ''http://a.com'', Timeout = 15, Data = [],
                AllTraffic = False\<rparr>"
  have ok: "reported_ok [] ?req" by (simp add: reported_ok_def)
  have m: "(?st1, ?res) \<in> Work ?cfg WriteOk ?st0 ?req" by (simp add: scenario_poll1)
  have "reachable ?cfg ?st0 (?st1, track [] ?req ?res)"
    by (rule reachable.poll [OF reachable.start ok m])
  then have r: "reachable ?cfg ?st0 (?st1, [''a-0''])" by (simp add: track_def)
  have s: "0 \<le> samples ?cfg" by (simp add: default_flags_def)
  from conservation [OF scenario_load s r] scenario_load s r show ?thesis by simp
qed

subsection \<open>The end-to-end scenario\<close>

text \<open>
  Claim C9 has the first reply carry the target \<^verbatim>\<open>a.com\<close>. Start-up stores the target
  with the default scheme applied, so with the flags of the scenario (the defaults, and
  10 for the minimum length) the only reply to the first call carries
  \<^verbatim>\<open>http://a.com\<close>.
\<close>

theorem scenario_first_reply_counterexample:
  "main_load go_url (default_flags\<lparr>minDataLen := 10\<rparr>) (disk_Stat fmempty) fmempty [[''a'', ''a.com'']] =
     Inr \<lparr>work = fmupd ''a-0'' \<lparr>item_ID = ''a-0'', item_URL = ''http://a.com''\<rparr> fmempty,
          workers = fmempty, done_count = 0, files = fmempty\<rparr>
   \<and> Work (default_flags\<lparr>minDataLen := 10\<rparr>) WriteOk
       \<lparr>work = fmupd ''a-0'' \<lparr>item_ID = ''a-0'', item_URL = ''http://a.com''\<rparr> fmempty,
        workers = fmempty, done_count = 0, files = fmempty\<rparr>
       \<lparr>WorkerID = ''w1'',
        Browse = Some \<lparr>ID = [], URL = [], Timeout = 0, Data = [], AllTraffic = False\<rparr>\<rparr>
     = {(\<lparr>work = fmempty, workers = fmupd ''w1'' ''w1'' fmempty, done_count = 0,
          files = fmempty\<rparr>,
         Reply \<lparr>ID = ''a-0'', URL = ''http://a.com'', Timeout = 15, Data = [],
                AllTraffic = False\<rparr>)}
   \<and> URL \<lparr>ID = ''a-0'', URL = ''http://a.com'', Timeout = 15, Data = [], AllTraffic = False\<rparr>
       \<noteq> ''a.com''"
  by (simp add: scenario_load scenario_poll1)

text \<open>
  C9, amended: with the one-row table (\<^verbatim>\<open>a\<close>, \<^verbatim>\<open>a.com\<close>), one sample, minimum length 10,
  the other flags at their defaults and no output file on disk, start-up leaves the unit
  \<^verbatim>\<open>a-0\<close> with target \<^verbatim>\<open>http://a.com\<close>. The first call, of worker \<^verbatim>\<open>w1\<close> with the empty
  id, records \<^verbatim>\<open>w1\<close> and replies with id \<^verbatim>\<open>a-0\<close> and target \<^verbatim>\<open>http://a.com\<close>. A second
  call reporting id \<^verbatim>\<open>a-0\<close>, target \<^verbatim>\<open>a.com\<close> and 5 bytes puts the unit \<^verbatim>\<open>a-0\<close> with target
  \<^verbatim>\<open>www.a.com\<close> into the ledger and replies with it. A third call reporting id \<^verbatim>\<open>a-0\<close>
  and 12 bytes, the write succeeding, writes them to \<^verbatim>\<open>data/a-0.pcap\<close>, leaves \<^verbatim>\<open>done\<close> at 1
  and the ledger empty, and replies with the empty id.
\<close>

theorem scenario_end_to_end:
  "main_load go_url (default_flags\<lparr>minDataLen := 10\<rparr>) (disk_Stat fmempty) fmempty [[''a'', ''a.com'']] =
     Inr \<lparr>work = fmupd ''a-0'' \<lparr>item_ID = ''a-0'', item_URL = ''http://a.com''\<rparr> fmempty,
          workers = fmempty, done_count = 0, files = fmempty\<rparr>
   \<and> Work (default_flags\<lparr>minDataLen := 10\<rparr>) io1
       \<lparr>work = fmupd ''a-0'' \<lparr>item_ID = ''a-0'', item_URL = ''http://a.com''\<rparr> fmempty,
        workers = fmempty, done_count = 0, files = fmempty\<rparr>
       \<lparr>WorkerID = ''w1'',
        Browse = Some \<lparr>ID = [], URL = [], Timeout = 0, Data = [], AllTraffic = False\<rparr>\<rparr>
     = {(\<lparr>work = fmempty, workers = fmupd ''w1'' ''w1'' fmempty, done_count = 0,
          files = fmempty\<rparr>,
         Reply \<lparr>ID = ''a-0'', URL = ''http://a.com'', Timeout = 15, Data = [],
                AllTraffic = False\<rparr>)}
   \<and> intake (default_flags\<lparr>minDataLen := 10\<rparr>) io2
       \<lparr>ID = ''a-0'', URL = ''a.com'', Timeout = 15, Data = replicate 5 0, AllTraffic = False\<rparr>
       \<lparr>work = fmempty, workers = fmupd ''w1'' ''w1'' fmempty, done_count = 0, files = fmempty\<rparr>
     = (\<lparr>work = fmupd ''a-0'' \<lparr>item_ID = ''a-0'', item_URL = ''www.a.com''\<rparr> fmempty,
         workers = fmupd ''w1'' ''w1'' fmempty, done_count = 0, files = fmempty\<rparr>, None)
   \<and> Work (default_flags\<lparr>minDataLen := 10\<rparr>) io2
       \<lparr>work = fmempty, workers = fmupd ''w1'' ''w1'' fmempty, done_count = 0, files = fmempty\<rparr>
       \<lparr>WorkerID = ''w1'',
        Browse = Some \<lparr>ID = ''a-0'', URL = ''a.com'', Timeout = 15, Data = replicate 5 0,
                       AllTraffic = False\<rparr>\<rparr>
     = {(\<lparr>work = fmempty, workers = fmupd ''w1'' ''w1'' fmempty, done_count = 0,
          files = fmempty\<rparr>,
         Reply \<lparr>ID = ''a-0'', URL = ''www.a.com'', Timeout = 15, Data = [],
                AllTraffic = False\<rparr>)}
   \<and> Work (default_flags\<lparr>minDataLen := 10\<rparr>) WriteOk
       \<lparr>work = fmempty, workers = fmupd ''w1'' ''w1'' fmempty, done_count = 0, files = fmempty\<rparr>
       \<lparr>WorkerID = ''w1'',
        Browse = Some \<lparr>ID = ''a-0'', URL = ''www.a.com'', Timeout = 15, Data = replicate 12 0,
                       AllTraffic = False\<rparr>\<rparr>
     = {(\<lparr>work = fmempty, workers = fmupd ''w1'' ''w1'' fmempty, done_count = 1,
          files = fmupd ''data/a-0.pcap'' (replicate 12 0) fmempty\<rparr>,
         Reply \<lparr>ID = [], URL = [], Timeout = 15, Data = [], AllTraffic = False\<rparr>)}"
proof -
  have "intake (default_flags\<lparr>minDataLen := 10\<rparr>) io2
       \<lparr>ID = ''a-0'', URL = ''a.com'', Timeout = 15, Data = replicate 5 0, AllTraffic = False\<rparr>
       \<lparr>work = fmempty, workers = fmupd ''w1'' ''w1'' fmempty, done_count = 0, files = fmempty\<rparr>
     = (\<lparr>work = fmupd ''a-0'' \<lparr>item_ID = ''a-0'', item_URL = ''www.a.com''\<rparr> fmempty,
         workers = fmupd ''w1'' ''w1'' fmempty, done_count = 0, files = fmempty\<rparr>, None)"
    by (simp add: intake_def toggle_www_def HasPrefix_def)
  then show ?thesis
    using scenario_load scenario_poll1 [of io1] scenario_poll2 [of io2] scenario_poll3
    by (intro conjI)
qed

subsection \<open>A request without a Browse message\<close>

text \<open>
  Claim C10 says that a request whose \<^verbatim>\<open>Browse\<close> message is absent is handled like a
  first contact. \<^verbatim>\<open>Work\<close> reads \<^verbatim>\<open>in.Browse.ID\<close> without a nil check: after recording the
  worker the call panics, for every worker id and in every state.
\<close>

theorem Work_nil_Browse:
  "Work cfg io st \<lparr>WorkerID = w, Browse = None\<rparr> = {(register_worker w st, Panic)}"
  by (simp add: Work_def)

subsection \<open>Further properties\<close>

text \<open>
  X1. The ledger stores every unit under its own id, and no unit under the empty id:
  start-up leaves it so, and every call of \<^verbatim>\<open>Work\<close> keeps it so, whatever the worker
  sends.
\<close>

theorem ledger_units_under_own_id:
  "(ledger_ok st \<longleftrightarrow> (\<forall>k it. fmlookup (work st) k = Some it \<longrightarrow> k \<noteq> [] \<and> item_ID it = k))
   \<and> (main_load lib cfg0 stat fs pages = Inr st0 \<longrightarrow> ledger_ok st0)
   \<and> (ledger_ok st \<longrightarrow> (st', res) \<in> Work cfg io st req \<longrightarrow> ledger_ok st')"
proof (intro conjI impI)
  show "ledger_ok st \<longleftrightarrow> (\<forall>k it. fmlookup (work st) k = Some it \<longrightarrow> k \<noteq> [] \<and> item_ID it = k)"
    by (rule ledger_ok_iff)
next
  assume "main_load lib cfg0 stat fs pages = Inr st0"
  then show "ledger_ok st0" by (rule main_load_ledger_ok)
next
  assume "ledger_ok st" "(st', res) \<in> Work cfg io st req"
  then show "ledger_ok st'" by (rule Work_ledger_ok)
qed

theorem ledger_units_under_own_id_witness:
  "main_load go_url (default_flags\<lparr>minDataLen := 10\<rparr>) (disk_Stat fmempty) fmempty [[''a'', ''a.com'']] =
     Inr \<lparr>work = fmupd ''a-0'' \<lparr>item_ID = ''a-0'', item_URL = ''http://a.com''\<rparr> fmempty,
          workers = fmempty, done_count = 0, files = fmempty\<rparr>
   \<and> ledger_ok \<lparr>work = fmupd ''a-0'' \<lparr>item_ID = ''a-0'', item_URL = ''http://a.com''\<rparr> fmempty,
          workers = fmempty, done_count = 0, files = fmempty\<rparr>"
proof -
  let ?st0 = "\<lparr>work = fmupd ''a-0'' \<lparr>item_ID = ''a-0'', item_URL = ''http://a.com''\<rparr> fmempty,
          workers = fmempty, done_count = 0, files = fmempty\<rparr>"
  note T = ledger_units_under_own_id [of ?st0 go_url "default_flags\<lparr>minDataLen := 10\<rparr>"
      "disk_Stat fmempty" fmempty
      "[[''a'', ''a.com'']]" ?st0]
  from T have "main_load go_url (default_flags\<lparr>minDataLen := 10\<rparr>) (disk_Stat fmempty) fmempty [[''a'', ''a.com'']]
      = Inr ?st0 \<longrightarrow> ledger_ok ?st0"
    by (rule conjunct1 [OF conjunct2])
  then have "ledger_ok ?st0" using scenario_load by (rule mp)
  then show ?thesis using scenario_load by (rule conjI [rotated])
qed

text \<open>
  X2. The id \<^verbatim>\<open>pages[i][0] + "-" + strconv.Itoa(s)\<close> determines the identifier and the
  sample index: two iterations of the start-up loops write the same id only for rows with
  the same identifier in the same sample.
\<close>

theorem work_id_unique:
  assumes "0 \<le> s" "0 \<le> s'"
  shows "work_id row s = work_id row' s' \<longleftrightarrow> row ! 0 = row' ! 0 \<and> s = s'"
proof
  assume "work_id row s = work_id row' s'"
  then show "row ! 0 = row' ! 0 \<and> s = s'" using assms by (rule work_id_inj)
next
  assume "row ! 0 = row' ! 0 \<and> s = s'"
  then show "work_id row s = work_id row' s'" by (simp add: work_id_def)
qed

theorem work_id_unique_witness:
  "(0::int) \<le> 0 \<and> (0::int) \<le> 10 \<and> work_id [''a-1'', ''x.org''] 0 \<noteq> work_id [''a'', ''a.com''] 10"
proof -
  have a: "(0::int) \<le> 0" and b: "(0::int) \<le> 10" by simp_all
  have "[''a-1'', ''x.org''] ! 0 \<noteq> [''a'', ''a.com''] ! 0" by simp
  then have "work_id [''a-1'', ''x.org''] 0 \<noteq> work_id [''a'', ''a.com''] 10"
    using work_id_unique [OF a b, of "[''a-1'', ''x.org'']" "[''a'', ''a.com'']"] by blast
  then show ?thesis using a b by blast
qed

text \<open>
  X3. Start-up succeeds on a page table and leaves state \<open>st\<close>. For every sample index
  \<open>s\<close> from 0 up to the sample count and every row of the table, the id is the row's
  identifier, a dash and the decimal \<open>s\<close>. The body of the loops for \<open>s\<close> and the row, in
  whatever state it runs, stores under the id the unit with that id and the row's target,
  printed by the URL library after the default scheme was put in place of an empty one, if
  \<^verbatim>\<open>os.Stat\<close> reports that the output file of the id does not exist; for every other
  answer of \<^verbatim>\<open>os.Stat\<close> (the file exists, or the call fails for another reason) it adds
  one to \<^verbatim>\<open>done\<close> and leaves the ledger alone. After start-up, the ledger holds no unit
  under the id unless \<^verbatim>\<open>os.Stat\<close> reported its output file missing. If it did, the ledger
  holds such a unit for the last row with this identifier (a later row with the same
  identifier overwrites an earlier one), which is the row itself when the identifiers of
  the table are distinct. \<^verbatim>\<open>done\<close> is the number of pairs of a sample index and a row
  whose output file \<^verbatim>\<open>os.Stat\<close> did not report missing, and the files are untouched.
\<close>

theorem main_load_creates_work:
  assumes "main_load lib cfg stat fs pages = Inr st" "0 \<le> s" "s < samples cfg" "row \<in> set pages"
  shows "work_id row s = row ! 0 @ ''-'' @ Itoa s
     \<and> (\<exists>page. url_Parse lib (row ! 1) = Some page
          \<and> (\<forall>x. create_item lib cfg stat s row x = Inr
                (if stat (outputFileName cfg (work_id row s)) = StatNotExist
                 then x\<lparr>work := fmupd (work_id row s)
                        \<lparr>item_ID = work_id row s,
                         item_URL = url_String lib
                           (if Scheme page = [] then page\<lparr>Scheme := scheme cfg\<rparr> else page)\<rparr>
                        (work x)\<rparr>
                 else x\<lparr>done_count := done_count x + 1\<rparr>)))
     \<and> (stat (outputFileName cfg (work_id row s)) \<noteq> StatNotExist \<longrightarrow>
          fmlookup (work st) (work_id row s) = None)
     \<and> (stat (outputFileName cfg (work_id row s)) = StatNotExist \<longrightarrow>
          (\<exists>page. url_Parse lib (last (filter (\<lambda>r. r ! 0 = row ! 0) pages) ! 1) = Some page
             \<and> fmlookup (work st) (work_id row s) =
                 Some \<lparr>item_ID = work_id row s,
                       item_URL = url_String lib
                         (if Scheme page = [] then page\<lparr>Scheme := scheme cfg\<rparr> else page)\<rparr>))
     \<and> (distinct (map (\<lambda>r. r ! 0) pages) \<longrightarrow>
          last (filter (\<lambda>r. r ! 0 = row ! 0) pages) = row)
     \<and> done_count st =
          int (length (filter (\<lambda>(s, r). stat (outputFileName cfg (work_id r s)) \<noteq> StatNotExist)
                 (iterations cfg pages)))
     \<and> files st = fs"
proof -
  let ?init = "\<lparr>work = fmempty, workers = fmempty, done_count = 0, files = fs\<rparr>"
  from assms(1) have v: "list_all (valid_row lib) pages"
    and run: "samples_loop lib cfg stat pages 0 ?init = Inr st"
    by (auto simp: main_load_def validate_pages_None [symmetric] split: option.splits)
  from samples_loop_result [OF v, of 0 cfg stat ?init] run have
    f: "files st = fs"
    and d: "done_count st =
          int (length (filter (\<lambda>(s, r). stat (outputFileName cfg (work_id r s)) \<noteq> StatNotExist)
                 (iterations cfg pages)))"
    and l: "\<And>s row. 0 \<le> s \<Longrightarrow> row \<in> set pages \<Longrightarrow>
            fmlookup (work st) (work_id row s) =
              (if s < samples cfg \<and> stat (outputFileName cfg (work_id row s)) = StatNotExist
               then unit_for lib cfg s (last (filter (\<lambda>r. r ! 0 = row ! 0) pages))
               else None)"
    by (auto simp: iterations_def)
  have vr: "valid_row lib row" using v assms(4) by (simp add: list_all_iff)
  then obtain page0 where page0: "url_Parse lib (row ! 1) = Some page0"
    by (auto simp: valid_row_def)
  have body: "\<exists>page. url_Parse lib (row ! 1) = Some page
          \<and> (\<forall>x. create_item lib cfg stat s row x = Inr
                (if stat (outputFileName cfg (work_id row s)) = StatNotExist
                 then x\<lparr>work := fmupd (work_id row s)
                        \<lparr>item_ID = work_id row s,
                         item_URL = url_String lib
                           (if Scheme page = [] then page\<lparr>Scheme := scheme cfg\<rparr> else page)\<rparr>
                        (work x)\<rparr>
                 else x\<lparr>done_count := done_count x + 1\<rparr>))"
    using create_item_valid [OF vr, of cfg stat s] page0 by (simp add: unit_for_def)
  let ?r = "last (filter (\<lambda>r. r ! 0 = row ! 0) pages)"
  have ne: "filter (\<lambda>r. r ! 0 = row ! 0) pages \<noteq> []"
    using assms(4) by (auto simp: filter_empty_conv)
  then have "?r \<in> set (filter (\<lambda>r. r ! 0 = row ! 0) pages)" by (rule last_in_set)
  then have r: "?r \<in> set pages" "?r ! 0 = row ! 0" by simp_all
  then have "valid_row lib ?r" using v by (simp add: list_all_iff)
  then obtain page where page: "url_Parse lib (?r ! 1) = Some page"
    by (auto simp: valid_row_def)
  have same: "work_id ?r s = work_id row s" using r(2) by (simp add: work_id_def)
  have u: "unit_for lib cfg s ?r = Some \<lparr>item_ID = work_id row s,
              item_URL = url_String lib
                (if Scheme page = [] then page\<lparr>Scheme := scheme cfg\<rparr> else page)\<rparr>"
    using page same by (simp add: unit_for_def)
  have final: "(stat (outputFileName cfg (work_id row s)) \<noteq> StatNotExist \<longrightarrow>
          fmlookup (work st) (work_id row s) = None)
     \<and> (stat (outputFileName cfg (work_id row s)) = StatNotExist \<longrightarrow>
          (\<exists>page. url_Parse lib (?r ! 1) = Some page
             \<and> fmlookup (work st) (work_id row s) =
                 Some \<lparr>item_ID = work_id row s,
                       item_URL = url_String lib
                         (if Scheme page = [] then page\<lparr>Scheme := scheme cfg\<rparr> else page)\<rparr>))"
    using l [OF assms(2,4)] assms(3) u page by auto
  have id: "work_id row s = row ! 0 @ ''-'' @ Itoa s" by (simp add: work_id_def)
  show ?thesis
    using id body final last_filter_distinct [OF _ assms(4)] d f by blast
qed

theorem main_load_creates_work_witness:
  "main_load go_url (default_flags\<lparr>samples := 2\<rparr>)
      (disk_Stat (fmupd ''data/b-1.pcap'' [1] fmempty)) (fmupd ''data/b-1.pcap'' [1] fmempty)
      [[''a'', ''a.com''], [''b'', ''https://b.org/x'']]
   = Inr \<lparr>work = fmupd ''a-1'' \<lparr>item_ID = ''a-1'', item_URL = ''http://a.com''\<rparr>
               (fmupd ''b-0'' \<lparr>item_ID = ''b-0'', item_URL = ''https://b.org/x''\<rparr>
                 (fmupd ''a-0'' \<lparr>item_ID = ''a-0'', item_URL = ''http://a.com''\<rparr> fmempty)),
          workers = fmempty, done_count = 1, files = fmupd ''data/b-1.pcap'' [1] fmempty\<rparr>
   \<and> (1::int) < samples (default_flags\<lparr>samples := 2\<rparr>)
   \<and> work_id [''b'', ''https://b.org/x''] 1 = ''b-1''
   \<and> disk_Stat (fmupd ''data/b-1.pcap'' [1::byte] fmempty)
        (outputFileName (default_flags\<lparr>samples := 2\<rparr>) ''b-1'') \<noteq> StatNotExist
   \<and> fmlookup (fmupd ''a-1'' \<lparr>item_ID = ''a-1'', item_URL = ''http://a.com''\<rparr>
               (fmupd ''b-0'' \<lparr>item_ID = ''b-0'', item_URL = ''https://b.org/x''\<rparr>
                 (fmupd ''a-0'' \<lparr>item_ID = ''a-0'', item_URL = ''http://a.com''\<rparr> fmempty)))
        ''b-1'' = None
   \<and> int (length (filter
          (\<lambda>(s, r). disk_Stat (fmupd ''data/b-1.pcap'' [1::byte] fmempty)
               (outputFileName (default_flags\<lparr>samples := 2\<rparr>) (work_id r s)) \<noteq> StatNotExist)
          (iterations (default_flags\<lparr>samples := 2\<rparr>)
             [[''a'', ''a.com''], [''b'', ''https://b.org/x'']]))) = 1"
proof -
  let ?cfg = "default_flags\<lparr>samples := 2\<rparr>"
  let ?row = "[''b'', ''https://b.org/x'']"
  let ?fs = "fmupd ''data/b-1.pcap'' [1::byte] fmempty"
  let ?w = "fmupd ''a-1'' \<lparr>item_ID = ''a-1'', item_URL = ''http://a.com''\<rparr>
               (fmupd ''b-0'' \<lparr>item_ID = ''b-0'', item_URL = ''https://b.org/x''\<rparr>
                 (fmupd ''a-0'' \<lparr>item_ID = ''a-0'', item_URL = ''http://a.com''\<rparr> fmempty))"
  have s: "(0::int) \<le> 1" "(1::int) < samples ?cfg" by (simp_all add: default_flags_def)
  have r: "?row \<in> set [[''a'', ''a.com''], ?row]" by simp
  have i: "work_id ?row 1 = ''b-1''"
    by (simp add: work_id_def Itoa_def nat_digits.simps digit_char_def)
  have f: "outputFileName ?cfg ''b-1'' = ''data/b-1.pcap''"
    by (simp add: outputFileName_def default_flags_def path_Clean_def)
  let ?st = "\<lparr>work = ?w, workers = fmempty, done_count = 1, files = ?fs\<rparr>"
  note T = main_load_creates_work [OF two_samples_load s r]
  have e: "disk_Stat ?fs (outputFileName ?cfg ''b-1'') \<noteq> StatNotExist"
    unfolding f by (simp add: disk_Stat_def)
  from T have "disk_Stat ?fs (outputFileName ?cfg (work_id ?row 1)) \<noteq> StatNotExist \<longrightarrow>
      fmlookup (work ?st) (work_id ?row 1) = None"
    by blast
  then have "fmlookup (work ?st) ''b-1'' = None"
    unfolding i using e by blast
  then have n: "fmlookup ?w ''b-1'' = None"
    by (simp only: state.select_convs)
  from T have "done_count ?st = int (length (filter
          (\<lambda>(s, r). disk_Stat ?fs (outputFileName ?cfg (work_id r s)) \<noteq> StatNotExist)
          (iterations ?cfg [[''a'', ''a.com''], ?row])))"
    by blast
  then have d: "int (length (filter
          (\<lambda>(s, r). disk_Stat ?fs (outputFileName ?cfg (work_id r s)) \<noteq> StatNotExist)
          (iterations ?cfg [[''a'', ''a.com''], ?row]))) = 1"
    by (simp only: state.select_convs)
  show ?thesis
    using two_samples_load s(2) i e n d by (intro conjI)
qed

end
